theory Spec2Isabelle
  imports Main "HOL-Library.Multiset" "HOL-Library.Monad_Syntax"
begin

section \<open>Data model (shared/types.ts and the interfaces of KanbanView.tsx)\<close>

text \<open>
  The records follow the TypeScript interfaces. The field \<open>id\<close> of \<open>Assignment\<close> and of
  \<open>AssignmentData\<close> is renamed (\<open>assignment_id\<close>, \<open>data_id\<close>) because \<open>id\<close> is the identity
  function of HOL, and fields that several interfaces share get a prefix, since record
  fields live in one name space. The \<open>status\<close> field is declared as the union type
  \<open>'NOT_STARTED' | 'IN_PROGRESS' | 'DONE'\<close>, but its run-time value is whatever string the
  server sent (the API types say \<open>status: string\<close>), so it is a \<open>string\<close> here.
\<close>

record assignment =
  assignment_id :: int
  name :: string
  due_date :: string
  due_time :: string
  submission_link :: string
  status :: string

record assignmentData =
  data_id :: int
  data_class_name :: string
  course_code :: string
  assignments :: "assignment list"

text \<open>\<open>data: AssignmentData | AssignmentData[]\<close>, told apart by \<open>Array.isArray\<close>.\<close>

datatype kanbanData = Single assignmentData | Multiple "assignmentData list"

text \<open>
  The object spread \<open>{...assignment, courseCode, class_name, syllabus_id}\<close> and then
  \<open>{...assignment, dueDateTime, courseCode}\<close> (interface \<open>AssignmentWithId\<close>) are record
  extensions.
\<close>

record courseAssignment = assignment +
  courseCode :: string
  class_name :: string
  syllabus_id :: int

type_synonym date = int

record assignmentWithId = courseAssignment +
  dueDateTime :: date

record weeklyBoard =
  weekNumber :: nat
  startDate :: date
  endDate :: date
  title :: string
  board_assignments :: "assignmentWithId list"

record allAssignmentsBoard =
  all_title :: string
  all_assignments :: "assignmentWithId list"

record column =
  column_id :: string
  column_title :: string
  column_assignments :: "assignmentWithId list"


section \<open>Dates (JavaScript \<open>Date\<close> and the date-fns functions the component imports)\<close>

text \<open>
  A valid \<open>Date\<close> is a whole number of milliseconds. The type \<open>date\<close> counts them on the
  local wall clock, from 1970-01-01 00:00 local time, which is exact for a time zone with
  a constant offset from UTC (with daylight saving a local day is not always 24 hours
  long; that is outside this model). An invalid \<open>Date\<close> (\<open>NaN\<close>) is \<open>None\<close>.
  Day 0 of this count is a Thursday, \<open>getDay\<close> numbers Sunday as 0.
\<close>

definition msPerDay :: int where
  "msPerDay = 86400000"

definition getDay :: "date \<Rightarrow> int" where
  "getDay d = (d div msPerDay + 4) mod 7"

text \<open>
  Modelled from the spec: \<open>startOfWeek\<close>, \<open>endOfWeek\<close> and \<open>isWithinInterval\<close> are functions of
  the date-fns package, which is not among the sources. The spec has "the Monday at or
  before earliest", "the Sunday ending that week" and "within [weekStart, weekEnd]
  inclusive"; the definitions below are those of date-fns for any \<open>weekStartsOn\<close>: go back
  to the first day of the week and to 00:00:00.000, or forward to its last day and to
  23:59:59.999.
\<close>

definition startOfWeek :: "int \<Rightarrow> date \<Rightarrow> date" where
  "startOfWeek weekStartsOn d =
     (let day = getDay d;
          diff = (if day < weekStartsOn then 7 else 0) + day - weekStartsOn
      in (d div msPerDay - diff) * msPerDay)"

definition endOfWeek :: "int \<Rightarrow> date \<Rightarrow> date" where
  "endOfWeek weekStartsOn d =
     (let day = getDay d;
          diff = (if day < weekStartsOn then - 7 else 0) + 6 - (day - weekStartsOn)
      in (d div msPerDay + diff) * msPerDay + (msPerDay - 1))"

definition isWithinInterval :: "date \<Rightarrow> date \<Rightarrow> date \<Rightarrow> bool" where
  "isWithinInterval d start finish \<longleftrightarrow> start \<le> d \<and> d \<le> finish"

text \<open>
  \<open>d = new Date(d); d.setDate(d.getDate() + n)\<close>: the same local time of day, \<open>n\<close> days on
  (the spec: "advance weekStart by exactly 7 days").
\<close>

definition addDays :: "date \<Rightarrow> int \<Rightarrow> date" where
  "addDays d n = d + n * msPerDay"

subsection \<open>Calendar dates\<close>

text \<open>
  Days since 1970-01-01 of a date of the proleptic Gregorian calendar and back, needed by
  \<open>parse\<close> and \<open>format\<close>. Years are counted from March, in eras of 400 years.
\<close>

definition daysFromCivil :: "int \<Rightarrow> int \<Rightarrow> int \<Rightarrow> int" where
  "daysFromCivil y m d =
     (let y' = (if m \<le> 2 then y - 1 else y);
          era = y' div 400;
          yoe = y' - era * 400;
          doy = (153 * (if m > 2 then m - 3 else m + 9) + 2) div 5 + d - 1;
          doe = yoe * 365 + yoe div 4 - yoe div 100 + doy
      in era * 146097 + doe - 719468)"

definition civilFromDays :: "int \<Rightarrow> int \<times> int \<times> int" where
  "civilFromDays z =
     (let z' = z + 719468;
          era = z' div 146097;
          doe = z' - era * 146097;
          yoe = (doe - doe div 1460 + doe div 36524 - doe div 146096) div 365;
          doy = doe - (365 * yoe + yoe div 4 - yoe div 100);
          mp = (5 * doy + 2) div 153;
          d = doy - (153 * mp + 2) div 5 + 1;
          m = (if mp < 10 then mp + 3 else mp - 9);
          y = yoe + era * 400
      in (if m \<le> 2 then y + 1 else y, m, d))"

definition isLeapYear :: "int \<Rightarrow> bool" where
  "isLeapYear y \<longleftrightarrow> y mod 400 = 0 \<or> (y mod 4 = 0 \<and> y mod 100 \<noteq> 0)"

definition daysInMonth :: "int \<Rightarrow> int \<Rightarrow> int" where
  "daysInMonth y m =
     (if m = 2 then (if isLeapYear y then 29 else 28)
      else if m = 4 \<or> m = 6 \<or> m = 9 \<or> m = 11 then 30 else 31)"

subsection \<open>Parsing and formatting\<close>

text \<open>
  Modelled from the spec: \<open>parse(s, 'yyyy-MM-dd h:mm a', new Date())\<close> is the date-fns
  parser, which is not among the sources. The spec has "a fixed parse pattern (YYYY-MM-DD
  + 12-hour clock with AM/PM)" that fails on a "malformed date/time" and on "out-of-range
  values". The model reads the tokens from left to right: a numeric token takes one up to
  its maximal number of digits, the hour takes \<open>10\<close> to \<open>12\<close> or one digit after an
  optional \<open>0\<close>, the separators must be there as written, the day period is \<open>am\<close> or \<open>pm\<close>
  in either case, and only blanks may follow. Seconds and milliseconds of the result
  are zero. \<open>None\<close> is the invalid date.
\<close>

definition isDigit :: "char \<Rightarrow> bool" where
  "isDigit c \<longleftrightarrow> 48 \<le> (of_char c :: nat) \<and> (of_char c :: nat) \<le> 57"

definition digitValue :: "char \<Rightarrow> int" where
  "digitValue c = of_char c - 48"

fun numberOf :: "int \<Rightarrow> string \<Rightarrow> int" where
  "numberOf acc [] = acc"
| "numberOf acc (c # cs) = numberOf (acc * 10 + digitValue c) cs"

fun takeDigits :: "nat \<Rightarrow> string \<Rightarrow> string" where
  "takeDigits 0 s = []"
| "takeDigits (Suc n) [] = []"
| "takeDigits (Suc n) (c # cs) = (if isDigit c then c # takeDigits n cs else [])"

definition parseNDigits :: "nat \<Rightarrow> string \<Rightarrow> (int \<times> string) option" where
  "parseNDigits n s =
     (let ds = takeDigits n s
      in if ds = [] then None else Some (numberOf 0 ds, drop (length ds) s))"

fun parseHour12h :: "string \<Rightarrow> (int \<times> string) option" where
  "parseHour12h (c1 # c2 # cs) =
     (if c1 = CHR ''1'' \<and> (c2 = CHR ''0'' \<or> c2 = CHR ''1'' \<or> c2 = CHR ''2'')
        then Some (10 + digitValue c2, cs)
      else if c1 = CHR ''0'' \<and> isDigit c2 then Some (digitValue c2, cs)
      else if isDigit c1 then Some (digitValue c1, c2 # cs)
      else None)"
| "parseHour12h [c1] = (if isDigit c1 then Some (digitValue c1, []) else None)"
| "parseHour12h [] = None"

fun literal :: "char \<Rightarrow> string \<Rightarrow> string option" where
  "literal c [] = None"
| "literal c (x # xs) = (if x = c then Some xs else None)"

text \<open>The day period: \<open>True\<close> for PM.\<close>

fun parseDayPeriod :: "string \<Rightarrow> (bool \<times> string) option" where
  "parseDayPeriod (c1 # c2 # cs) =
     (if c2 = CHR ''m'' \<or> c2 = CHR ''M'' then
        (if c1 = CHR ''a'' \<or> c1 = CHR ''A'' then Some (False, cs)
         else if c1 = CHR ''p'' \<or> c1 = CHR ''P'' then Some (True, cs)
         else None)
      else None)"
| "parseDayPeriod _ = None"

definition hours24 :: "bool \<Rightarrow> int \<Rightarrow> int" where
  "hours24 isPM h =
     (if isPM \<and> h < 12 then h + 12 else if \<not> isPM \<and> h = 12 then 0 else h)"

definition parse :: "string \<Rightarrow> date option" where
  "parse dateTimeString = do {
     (year, s1) \<leftarrow> parseNDigits 4 dateTimeString;
     s2 \<leftarrow> literal CHR ''-'' s1;
     (month, s3) \<leftarrow> parseNDigits 2 s2;
     s4 \<leftarrow> literal CHR ''-'' s3;
     (day, s5) \<leftarrow> parseNDigits 2 s4;
     s6 \<leftarrow> literal CHR '' '' s5;
     (hour, s7) \<leftarrow> parseHour12h s6;
     s8 \<leftarrow> literal CHR '':'' s7;
     (minute, s9) \<leftarrow> parseNDigits 2 s8;
     s10 \<leftarrow> literal CHR '' '' s9;
     (isPM, rest) \<leftarrow> parseDayPeriod s10;
     if 0 < year \<and> 1 \<le> month \<and> month \<le> 12 \<and> 1 \<le> day \<and> day \<le> daysInMonth year month
        \<and> 1 \<le> hour \<and> hour \<le> 12 \<and> minute \<le> 59 \<and> list_all (\<lambda>c. c = CHR '' '') rest
     then Some (daysFromCivil year month day * msPerDay
                  + hours24 isPM hour * 3600000 + minute * 60000)
     else None
   }"

text \<open>
  Modelled from the spec: \<open>format(d, 'MM/dd')\<close> of date-fns, the two-digit month and day of
  the month of a valid date ("the formatted window bounds").
\<close>

definition digitChar :: "nat \<Rightarrow> char" where
  "digitChar n = char_of (48 + n mod 10)"

definition pad2 :: "int \<Rightarrow> string" where
  "pad2 n = [digitChar (nat n div 10), digitChar (nat n)]"

definition formatMMdd :: "date \<Rightarrow> string" where
  "formatMMdd d = (case civilFromDays (d div msPerDay) of (y, m, dd) \<Rightarrow> pad2 m @ ''/'' @ pad2 dd)"

text \<open>The decimal digits of a number, as a template literal inserts them.\<close>

fun showNat :: "nat \<Rightarrow> string" where
  "showNat n = (if n < 10 then [digitChar n] else showNat (n div 10) @ [digitChar n])"

declare showNat.simps [simp del]


section \<open>The weekly boards (\<open>weeklyBoards\<close> of \<open>KanbanView\<close>)\<close>

definition withCourse :: "assignmentData \<Rightarrow> assignment \<Rightarrow> courseAssignment" where
  "withCourse syllabus a =
     assignment.extend a
       (courseAssignment.fields (course_code syllabus) (data_class_name syllabus) (data_id syllabus))"

definition allAssignments :: "kanbanData \<Rightarrow> courseAssignment list" where
  "allAssignments currentData =
     (case currentData of
        Multiple syllabi \<Rightarrow> concat (map (\<lambda>syllabus. map (withCourse syllabus) (assignments syllabus)) syllabi)
      | Single syllabus \<Rightarrow> map (withCourse syllabus) (assignments syllabus))"

text \<open>
  One element of \<open>assignmentsWithId\<close>. The \<open>try\<close> block throws when the parsed date is
  invalid, and the \<open>catch\<close> block takes the wall clock instead; \<open>now\<close> is the value of
  that \<open>new Date()\<close>. A parser that throws ends in the same \<open>catch\<close> block, so \<open>None\<close>
  stands for that as well. The parser is a parameter, so that what is proved of the
  boards holds for every parser.
\<close>

definition toAssignmentWithId :: "(string \<Rightarrow> date option) \<Rightarrow> date \<Rightarrow> courseAssignment \<Rightarrow> assignmentWithId" where
  "toAssignmentWithId parser now a =
     (let dateTimeString = due_date a @ '' '' @ due_time a;
          dueDateTime = (case parser dateTimeString of Some d \<Rightarrow> d | None \<Rightarrow> now)
      in courseAssignment.extend a (assignmentWithId.fields dueDateTime))"

text \<open>
  \<open>allAssignments.map(...)\<close>. Each failed parse reads the wall clock anew: \<open>clock i\<close> is what
  \<open>new Date()\<close> gives while element \<open>i\<close> is mapped.
\<close>

definition assignmentsWithId :: "(string \<Rightarrow> date option) \<Rightarrow> (nat \<Rightarrow> date) \<Rightarrow> courseAssignment list \<Rightarrow> assignmentWithId list" where
  "assignmentsWithId parser clock as =
     map (\<lambda>(i, a). toAssignmentWithId parser (clock i) a) (enumerate 0 as)"

definition weekTitle :: "nat \<Rightarrow> date \<Rightarrow> date \<Rightarrow> string" where
  "weekTitle n start finish =
     ''Week '' @ showNat n @ '' ['' @ formatMMdd start @ '' - '' @ formatMMdd finish @ '']''"

text \<open>
  The \<open>while\<close> loop. Its variables are \<open>currentWeekStart\<close>, \<open>weekNumber\<close> and \<open>boards\<close>; the
  sorted assignments and \<open>latestDate\<close> do not change.
\<close>

function weekLoop :: "assignmentWithId list \<Rightarrow> date \<Rightarrow> date \<Rightarrow> nat \<Rightarrow> weeklyBoard list \<Rightarrow> weeklyBoard list" where
  "weekLoop items latestDate currentWeekStart weekNo boards =
     (if currentWeekStart \<le> latestDate then
        (let weekEnd = endOfWeek 1 currentWeekStart;
             weekAssignments =
               filter (\<lambda>a. isWithinInterval (dueDateTime a) currentWeekStart weekEnd) items
         in if length weekAssignments > 0
            then weekLoop items latestDate (addDays currentWeekStart 7) (weekNo + 1)
                   (boards @ [\<lparr>weekNumber = weekNo, startDate = currentWeekStart, endDate = weekEnd,
                                title = weekTitle weekNo currentWeekStart weekEnd,
                                board_assignments = weekAssignments\<rparr>])
            else weekLoop items latestDate (addDays currentWeekStart 7) weekNo boards)
      else boards)"
  by pat_completeness auto
termination
  by (relation "measure (\<lambda>(items, latestDate, currentWeekStart, weekNo, boards).
                  nat (latestDate + 1 - currentWeekStart))")
     (auto simp: addDays_def msPerDay_def)

declare weekLoop.simps [simp del]

text \<open>
  \<open>Array.prototype.sort\<close> with the comparator \<open>a.dueDateTime - b.dueDateTime\<close> is a stable
  sort by \<open>dueDateTime\<close>, as \<open>sort_key\<close> is. The first and the last element are read only
  after the test for the empty array.
\<close>

definition weeklyBoards :: "(string \<Rightarrow> date option) \<Rightarrow> (nat \<Rightarrow> date) \<Rightarrow> kanbanData \<Rightarrow> weeklyBoard list" where
  "weeklyBoards parser clock currentData =
     (let items = sort_key dueDateTime (assignmentsWithId parser clock (allAssignments currentData))
      in if length items = 0 then []
         else
           (let earliestDate = dueDateTime (items ! 0);
                latestDate = dueDateTime (items ! (length items - 1))
            in weekLoop items latestDate (startOfWeek 1 earliestDate) 1 []))"

text \<open>The board of all assignments: the same elements, not sorted.\<close>

definition allAssignmentsBoardOf :: "(string \<Rightarrow> date option) \<Rightarrow> (nat \<Rightarrow> date) \<Rightarrow> bool \<Rightarrow> kanbanData \<Rightarrow> allAssignmentsBoard" where
  "allAssignmentsBoardOf parser clock isUnified currentData =
     \<lparr>all_title = (if isUnified then ''All Assignments (Unified View)'' else ''All Assignments''),
      all_assignments = assignmentsWithId parser clock (allAssignments currentData)\<rparr>"


section \<open>Columns (the status effect of \<open>WeeklyBoard\<close> and \<open>AllAssignmentsBoard\<close>)\<close>

text \<open>
  The body of the \<open>forEach\<close>: a \<open>switch\<close> on the status with three cases and no
  \<open>default\<close>. The state is the three arrays \<open>notStarted\<close>, \<open>inProgress\<close> and \<open>done\<close>.
\<close>

definition pushByStatus :: "assignmentWithId list \<times> assignmentWithId list \<times> assignmentWithId list \<Rightarrow> assignmentWithId
    \<Rightarrow> assignmentWithId list \<times> assignmentWithId list \<times> assignmentWithId list" where
  "pushByStatus acc a =
     (case acc of (notStarted, inProgress, done) \<Rightarrow>
        if status a = ''NOT_STARTED'' then (notStarted @ [a], inProgress, done)
        else if status a = ''IN_PROGRESS'' then (notStarted, inProgress @ [a], done)
        else if status a = ''DONE'' then (notStarted, inProgress, done @ [a])
        else (notStarted, inProgress, done))"

definition distributeByStatus :: "assignmentWithId list
    \<Rightarrow> assignmentWithId list \<times> assignmentWithId list \<times> assignmentWithId list" where
  "distributeByStatus as = foldl pushByStatus ([], [], []) as"

text \<open>
  What the effect passes to \<open>setColumns\<close>; both board components have the same effect, on
  \<open>board.assignments\<close>.
\<close>

definition resetColumns :: "assignmentWithId list \<Rightarrow> column list" where
  "resetColumns as =
     (case distributeByStatus as of (notStarted, inProgress, done) \<Rightarrow>
        [\<lparr>column_id = ''not-started'', column_title = ''Not Started'', column_assignments = notStarted\<rparr>,
         \<lparr>column_id = ''in-progress'', column_title = ''In Progress'', column_assignments = inProgress\<rparr>,
         \<lparr>column_id = ''done'', column_title = ''Done'', column_assignments = done\<rparr>])"

text \<open>The assignments of the column with a given identifier.\<close>

definition columnOf :: "string \<Rightarrow> column list \<Rightarrow> assignmentWithId list" where
  "columnOf cid cols = concat (map column_assignments (filter (\<lambda>c. column_id c = cid) cols))"


section \<open>Course colours (\<open>generateCourseColor\<close>)\<close>

definition colors :: "string list" where
  "colors =
     [''#FF6B6B'', ''#4ECDC4'', ''#45B7D1'', ''#96CEB4'', ''#FFEAA7'',
      ''#DDA0DD'', ''#98D8C8'', ''#F7DC6F'', ''#BB8FCE'', ''#85C1E9'',
      ''#F8C471'', ''#82E0AA'', ''#F1948A'', ''#85C1E9'', ''#D7BDE2'']"

text \<open>
  JavaScript numbers are doubles; the integers of absolute value below \<open>2 ^ 53\<close> are exact,
  and the model is the arithmetic on \<open>int\<close>. \<open><<\<close> first brings its left operand into
  the signed 32-bit range (\<open>toInt32\<close>), shifts, and wraps again; the subtraction and the
  addition of the character code do not wrap. A character is a byte here, which is the
  UTF-16 code unit for the Latin-1 range.
\<close>

definition toInt32 :: "int \<Rightarrow> int" where
  "toInt32 x = (x + 2 ^ 31) mod 2 ^ 32 - 2 ^ 31"

definition shiftLeft :: "int \<Rightarrow> nat \<Rightarrow> int" where
  "shiftLeft x n = toInt32 (toInt32 x * 2 ^ (n mod 32))"

definition charCodeAt :: "string \<Rightarrow> nat \<Rightarrow> int" where
  "charCodeAt s i = of_char (s ! i)"

text \<open>The \<open>for\<close> loop, from index \<open>i\<close> with the current \<open>hash\<close>.\<close>

function hashLoop :: "string \<Rightarrow> nat \<Rightarrow> int \<Rightarrow> int" where
  "hashLoop code i hash =
     (if i < length code
      then hashLoop code (i + 1) (charCodeAt code i + (shiftLeft hash 5 - hash))
      else hash)"
  by pat_completeness auto
termination
  by (relation "measure (\<lambda>(code, i, hash). length code - i)") auto

declare hashLoop.simps [simp del]

text \<open>An array read: \<open>undefined\<close> (\<open>None\<close>) outside the array.\<close>

definition at :: "'a list \<Rightarrow> int \<Rightarrow> 'a option" where
  "at xs i = (if 0 \<le> i \<and> i < int (length xs) then Some (xs ! nat i) else None)"

definition generateCourseColor :: "string \<Rightarrow> string option" where
  "generateCourseColor code =
     at colors (\<bar>hashLoop code 0 0\<bar> mod int (length colors))"

text \<open>
  The rolling hash in the words of the spec: "each step:
  \<open>hash = char_code + ((hash << 5) - hash)\<close>", over the characters from left to right.
\<close>

definition rollingHash :: "string \<Rightarrow> int" where
  "rollingHash code = foldl (\<lambda>hash c. of_char c + (shiftLeft hash 5 - hash)) 0 code"


section \<open>State, network and handlers of \<open>KanbanView\<close>\<close>

text \<open>
  The props \<open>data\<close>, \<open>isUnified\<close> and \<open>onDataRefresh\<close> (here: whether the callback was
  given) of \<open>KanbanView\<close>, its four state variables, and the \<open>columns\<close> state of the board
  component that is mounted. What the components render is a function of these (and of
  the clock, for the highlight of the current week).
\<close>

datatype boardType = Weekly | AllAssignments

record kanbanState =
  data :: kanbanData
  isUnified :: bool
  onDataRefresh :: bool
  selectedWeek :: "nat option"
  selectedBoardType :: boardType
  freshData :: "kanbanData option"
  isRefreshing :: bool
  columns :: "column list"

text \<open>\<open>const currentData = freshData || data\<close>: the working copy.\<close>

definition currentData :: "kanbanState \<Rightarrow> kanbanData" where
  "currentData s = (case freshData s of Some d \<Rightarrow> d | None \<Rightarrow> data s)"

text \<open>
  An awaited call of \<open>services/api.ts\<close> either resolves with the parsed response or throws
  (\<open>fetch\<close> rejects, or the HTTP status is not ok). The outcome of each call is an argument
  of the handler that awaits it, so a statement for all outcomes is one for every behaviour
  of the network and the server.
\<close>

datatype 'a outcome = Resolves 'a | Throws

record syllabiResponse =
  success :: bool
  response_data :: "assignmentData list option"

text \<open>
  What a handler does besides changing state, in the order it happens: the requests it
  sends, the lines it writes to the browser console (their fixed text, without the values
  appended), and its call of the parent's \<open>onDataRefresh\<close>.
\<close>

datatype request = UpdateAssignmentStatus int string | GetAllSyllabi

datatype effect =
    Request request
  | ConsoleLog string
  | ConsoleError string
  | OnDataRefresh kanbanData

text \<open>\<open>Array.isArray(data) ? data[0]?.id : data.id\<close>; \<open>None\<close> is \<open>undefined\<close>.\<close>

definition currentSyllabusId :: "kanbanData \<Rightarrow> int option" where
  "currentSyllabusId d =
     (case d of
        Multiple syllabi \<Rightarrow> (case syllabi of [] \<Rightarrow> None | x # _ \<Rightarrow> Some (data_id x))
      | Single syllabus \<Rightarrow> Some (data_id syllabus))"

definition notify :: "kanbanState \<Rightarrow> kanbanData \<Rightarrow> effect list" where
  "notify s d = (if onDataRefresh s then [OnDataRefresh d] else [])"

text \<open>
  \<open>refreshData\<close>. \<open>isRefreshing\<close> is true while the request is out and false again in the
  \<open>finally\<close> block; the function catches what the request throws.
\<close>

definition refreshData :: "syllabiResponse outcome \<Rightarrow> kanbanState \<Rightarrow> kanbanState \<times> effect list" where
  "refreshData fetched s =
     (let fallback = s\<lparr>freshData := Some (data s)\<rparr>;
          (s', effects) =
            (case fetched of
               Resolves response \<Rightarrow>
                 (case (if success response then response_data response else None) of
                    Some freshSyllabi \<Rightarrow>
                      if isUnified s
                      then (s\<lparr>freshData := Some (Multiple freshSyllabi)\<rparr>, notify s (Multiple freshSyllabi))
                      else (case find (\<lambda>x. Some (data_id x) = currentSyllabusId (data s)) freshSyllabi of
                              Some matchingSyllabus \<Rightarrow>
                                (s\<lparr>freshData := Some (Single matchingSyllabus)\<rparr>, notify s (Single matchingSyllabus))
                            | None \<Rightarrow> (fallback, []))
                  | None \<Rightarrow> (fallback, []))
             | Throws \<Rightarrow> (fallback, [ConsoleError ''Failed to fetch fresh data:'']))
      in (s'\<lparr>isRefreshing := False\<rparr>, Request GetAllSyllabi # effects))"

text \<open>
  A drag ends over nothing or over a droppable. Only the cards are draggable, and their
  identifier is the assignment's number; droppables are the columns (a string) and the
  cards (a number).
\<close>

datatype uniqueId = Num int | Str string

record dragEndEvent =
  active :: int
  over :: "uniqueId option"

definition validColumns :: "string list" where
  "validColumns = [''not-started'', ''in-progress'', ''done'']"

text \<open>\<open>validColumns.includes(over.id)\<close>: a number is never equal to a string.\<close>

fun includesId :: "string list \<Rightarrow> uniqueId \<Rightarrow> string option" where
  "includesId xs (Str x) = (if x \<in> set xs then Some x else None)"
| "includesId xs (Num n) = None"

definition statusMap :: "string \<rightharpoonup> string" where
  "statusMap = map_of
     [(''not-started'', ''NOT_STARTED''), (''in-progress'', ''IN_PROGRESS''), (''done'', ''DONE'')]"

text \<open>The loop over the columns that looks for the dragged assignment.\<close>

fun findAssignment :: "column list \<Rightarrow> int \<Rightarrow> assignmentWithId option" where
  "findAssignment [] assignmentId = None"
| "findAssignment (c # cs) assignmentId =
     (case find (\<lambda>a. assignment_id a = assignmentId) (column_assignments c) of
        Some a \<Rightarrow> Some a
      | None \<Rightarrow> findAssignment cs assignmentId)"

text \<open>
  \<open>handleDragEnd\<close> of \<open>WeeklyBoard\<close>. \<open>updated\<close> is the outcome of
  \<open>updateAssignmentStatus\<close> and \<open>fetched\<close> that of \<open>getAllSyllabi\<close>, should they be
  called. The last line is the parent's \<open>handleAssignmentMove\<close>, which only logs.
\<close>

definition handleDragEnd :: "unit outcome \<Rightarrow> syllabiResponse outcome \<Rightarrow> dragEndEvent \<Rightarrow> kanbanState
    \<Rightarrow> kanbanState \<times> effect list" where
  "handleDragEnd updated fetched event s =
     (case over event of
        None \<Rightarrow> (s, [ConsoleLog ''Drag end:'', ConsoleLog ''No drop target - returning to original position''])
      | Some target \<Rightarrow>
          (case includesId validColumns target of
             None \<Rightarrow> (s, [ConsoleLog ''Drag end:'', ConsoleLog ''Invalid drop target - returning to original position''])
           | Some newColumnId \<Rightarrow>
               (case statusMap newColumnId of
                  None \<Rightarrow> (s, [ConsoleLog ''Drag end:'', ConsoleLog ''Moving assignment:''])
                | Some newStatus \<Rightarrow>
                    (case findAssignment (columns s) (active event) of
                       None \<Rightarrow>
                         (s, [ConsoleLog ''Drag end:'', ConsoleLog ''Moving assignment:'',
                              ConsoleLog ''Assignment not found:'', ConsoleLog ''Available assignments:''])
                     | Some assignment \<Rightarrow>
                         (case updated of
                            Throws \<Rightarrow>
                              (s, [ConsoleLog ''Drag end:'', ConsoleLog ''Moving assignment:'',
                                   Request (UpdateAssignmentStatus (active event) newStatus),
                                   ConsoleError ''Failed to update assignment status:''])
                          | Resolves _ \<Rightarrow>
                              (case refreshData fetched s of (s', effects) \<Rightarrow>
                                 (s', [ConsoleLog ''Drag end:'', ConsoleLog ''Moving assignment:'',
                                       Request (UpdateAssignmentStatus (active event) newStatus)]
                                      @ effects @ [ConsoleLog ''Assignment moved''])))))))"

text \<open>
  \<open>handleAllAssignmentsMove\<close> of \<open>KanbanView\<close>; its \<open>parseInt\<close> undoes the \<open>toString\<close> of the
  caller.
\<close>

definition handleAllAssignmentsMove :: "unit outcome \<Rightarrow> syllabiResponse outcome \<Rightarrow> int \<Rightarrow> string \<Rightarrow> kanbanState
    \<Rightarrow> kanbanState \<times> effect list" where
  "handleAllAssignmentsMove updated fetched assignmentId newColumn s =
     (case statusMap newColumn of
        None \<Rightarrow> (s, [])
      | Some newStatus \<Rightarrow>
          (case updated of
             Throws \<Rightarrow>
               (s, [Request (UpdateAssignmentStatus assignmentId newStatus),
                    ConsoleError ''Failed to update assignment status:''])
           | Resolves _ \<Rightarrow>
               (case refreshData fetched s of (s', effects) \<Rightarrow>
                  (s', Request (UpdateAssignmentStatus assignmentId newStatus) # effects))))"

text \<open>
  \<open>handleDragEnd\<close> of \<open>AllAssignmentsBoard\<close>. After its own update and refresh it calls
  \<open>onAssignmentMove\<close>, which is \<open>handleAllAssignmentsMove\<close> and sends both requests once
  more: \<open>updated2\<close> and \<open>fetched2\<close> are their outcomes.
\<close>

definition handleDragEndAll :: "unit outcome \<Rightarrow> syllabiResponse outcome \<Rightarrow> unit outcome \<Rightarrow> syllabiResponse outcome
    \<Rightarrow> dragEndEvent \<Rightarrow> kanbanState \<Rightarrow> kanbanState \<times> effect list" where
  "handleDragEndAll updated fetched updated2 fetched2 event s =
     (case over event of
        None \<Rightarrow> (s, [])
      | Some target \<Rightarrow>
          (case includesId validColumns target of
             None \<Rightarrow> (s, [])
           | Some newColumnId \<Rightarrow>
               (case statusMap newColumnId of
                  None \<Rightarrow> (s, [])
                | Some newStatus \<Rightarrow>
                    (case updated of
                       Throws \<Rightarrow>
                         (s, [Request (UpdateAssignmentStatus (active event) newStatus),
                              ConsoleError ''Failed to update assignment status:''])
                     | Resolves _ \<Rightarrow>
                         (case refreshData fetched s of (s1, effects1) \<Rightarrow>
                            (case handleAllAssignmentsMove updated2 fetched2 (active event) newColumnId s1 of
                               (s2, effects2) \<Rightarrow>
                                 (s2, Request (UpdateAssignmentStatus (active event) newStatus)
                                        # effects1 @ effects2)))))))"

text \<open>
  The page is a function of props and state: the JSX has no element for a failure of a
  request, and the handlers write to the console only. A failure can therefore reach the
  user's eyes only through a change of state, which is what \<open>surfaced\<close> asks for, given the
  state before the handler and its result.
\<close>

definition surfaced :: "kanbanState \<Rightarrow> kanbanState \<times> effect list \<Rightarrow> bool" where
  "surfaced s result \<longleftrightarrow> fst result \<noteq> s"

definition requestsOf :: "effect list \<Rightarrow> request list" where
  "requestsOf effects = concat (map (\<lambda>e. case e of Request r \<Rightarrow> [r] | _ \<Rightarrow> []) effects)"

subsection \<open>Selection of the week\<close>

text \<open>
  The effect that selects a week once the boards are there; \<open>today\<close> is its
  \<open>new Date()\<close>. \<open>selectedBoard\<close> is the board that is then shown.
\<close>

definition autoSelect :: "date \<Rightarrow> weeklyBoard list \<Rightarrow> kanbanState \<Rightarrow> kanbanState" where
  "autoSelect today boards s =
     (if length boards > 0 \<and> selectedWeek s = None \<and> selectedBoardType s = Weekly then
        (case find (\<lambda>board. isWithinInterval today (startDate board) (endDate board)) boards of
           Some currentWeek \<Rightarrow> s\<lparr>selectedWeek := Some (weekNumber currentWeek)\<rparr>
         | None \<Rightarrow> s\<lparr>selectedWeek := Some (weekNumber (boards ! 0))\<rparr>)
      else s)"

definition selectedBoard :: "weeklyBoard list \<Rightarrow> kanbanState \<Rightarrow> weeklyBoard option" where
  "selectedBoard boards s = find (\<lambda>board. Some (weekNumber board) = selectedWeek s) boards"


section \<open>Weeks of the calendar and the invariant of the loop\<close>

text \<open>
  The notions the statements about the boards are written in: a week start is a Monday at
  00:00:00.000; the sorted array the loop reads; a board that is the week of its start
  date; and what holds of \<open>currentWeekStart\<close>, \<open>weekNumber\<close> and \<open>boards\<close> each time the
  loop tests its condition, \<open>start\<close> being the first week start.
\<close>

definition msPerWeek :: int where
  "msPerWeek = 7 * msPerDay"

definition isWeekStart :: "date \<Rightarrow> bool" where
  "isWeekStart m \<longleftrightarrow> m mod msPerDay = 0 \<and> getDay m = 1"

definition inWeek :: "date \<Rightarrow> date \<Rightarrow> assignmentWithId \<Rightarrow> bool" where
  "inWeek start finish a \<longleftrightarrow> isWithinInterval (dueDateTime a) start finish"

definition sortedAssignments :: "(string \<Rightarrow> date option) \<Rightarrow> (nat \<Rightarrow> date) \<Rightarrow> kanbanData \<Rightarrow> assignmentWithId list" where
  "sortedAssignments parser clock d =
     sort_key dueDateTime (assignmentsWithId parser clock (allAssignments d))"

definition weekOf :: "assignmentWithId list \<Rightarrow> weeklyBoard \<Rightarrow> bool" where
  "weekOf items b \<longleftrightarrow>
     isWeekStart (startDate b) \<and> endDate b = startDate b + msPerWeek - 1
     \<and> title b = weekTitle (weekNumber b) (startDate b) (endDate b)
     \<and> board_assignments b \<noteq> []
     \<and> board_assignments b = filter (inWeek (startDate b) (endDate b)) items"

definition weekInv :: "assignmentWithId list \<Rightarrow> date \<Rightarrow> date \<Rightarrow> nat \<Rightarrow> weeklyBoard list \<Rightarrow> bool" where
  "weekInv items start m n boards \<longleftrightarrow>
     isWeekStart m \<and> start \<le> m \<and> n = Suc (length boards)
     \<and> map weekNumber boards = [1..<n]
     \<and> sorted_wrt (\<lambda>b c. endDate b < startDate c) boards
     \<and> (\<forall>b \<in> set boards. weekOf items b \<and> endDate b < m)
     \<and> concat (map board_assignments boards) =
         filter (\<lambda>a. start \<le> dueDateTime a \<and> dueDateTime a < m) items"


section \<open>Example data\<close>

text \<open>
  A syllabus with three assignments: one due on Sunday 2025-10-19 at 23:59, one whose
  due time is empty, and one due on Wednesday 2025-11-05; and a clock that stands at
  Tuesday 2025-11-04, 12:00.
\<close>

definition hw1 :: assignment where
  "hw1 = \<lparr>assignment_id = 1, name = ''HW1'', due_date = ''2025-10-19'', due_time = ''11:59 PM'',
           submission_link = [], status = ''DONE''\<rparr>"

definition hw2 :: assignment where
  "hw2 = \<lparr>assignment_id = 2, name = ''HW2'', due_date = ''2025-10-20'', due_time = [],
           submission_link = [], status = ''NOT_STARTED''\<rparr>"

definition hw3 :: assignment where
  "hw3 = \<lparr>assignment_id = 3, name = ''HW3'', due_date = ''2025-11-05'', due_time = ''9:00 AM'',
           submission_link = [], status = ''IN_PROGRESS''\<rparr>"

definition cs251 :: assignmentData where
  "cs251 = \<lparr>data_id = 7, data_class_name = ''Data Structures'', course_code = ''CS 251'',
             assignments = [hw3, hw1, hw2]\<rparr>"

definition noon :: "nat \<Rightarrow> date" where
  "noon i = 1762257600000"

text \<open>A card of that course with a given number, status and due instant.\<close>

definition cardOf :: "int \<Rightarrow> string \<Rightarrow> date \<Rightarrow> assignmentWithId" where
  "cardOf i st d =
     \<lparr>assignment_id = i, name = ''HW'', due_date = [], due_time = [], submission_link = [],
      status = st, courseCode = ''CS 251'', class_name = ''Data Structures'', syllabus_id = 7,
      dueDateTime = d\<rparr>"

text \<open>
  The view with the board of week 2 shown (assignments 2 and 3 in its columns), and the
  view as it is mounted, before a week is selected.
\<close>

definition state0 :: kanbanState where
  "state0 = \<lparr>data = Single cs251, isUnified = False, onDataRefresh = True, selectedWeek = Some 2,
              selectedBoardType = Weekly, freshData = None, isRefreshing = False,
              columns = resetColumns [cardOf 2 ''NOT_STARTED'' 1762257600000,
                                      cardOf 3 ''IN_PROGRESS'' 1762333200000]\<rparr>"

definition stateLoad :: kanbanState where
  "stateLoad = \<lparr>data = Single cs251, isUnified = False, onDataRefresh = True, selectedWeek = None,
                 selectedBoardType = Weekly, freshData = None, isRefreshing = False,
                 columns = []\<rparr>"

text \<open>
  A load of the view without any click. The view is mounted with a \<open>data\<close> prop that
  holds assignment 3 only. After the first render the effects run: the mount effect calls
  \<open>refreshData\<close>, whose request is then out, and the selection effect selects a week among
  the boards of the prop, with the clock at Tuesday 2025-11-04, 12:00 (\<open>stateSelected\<close>).
  Then the response arrives with all three assignments of the syllabus and becomes
  \<open>freshData\<close> (\<open>stateRefetched\<close>); the boards are computed anew and the selection effect runs
  again.
\<close>

definition stateMounted :: kanbanState where
  "stateMounted = \<lparr>data = Single (cs251\<lparr>assignments := [hw3]\<rparr>), isUnified = False,
                    onDataRefresh = False, selectedWeek = None, selectedBoardType = Weekly,
                    freshData = None, isRefreshing = False, columns = []\<rparr>"

definition stateSelected :: kanbanState where
  "stateSelected =
     autoSelect 1762257600000 (weeklyBoards parse noon (currentData stateMounted)) stateMounted"

definition stateRefetched :: kanbanState where
  "stateRefetched =
     fst (refreshData (Resolves \<lparr>success = True, response_data = Some [cs251]\<rparr>) stateSelected)"


section \<open>Column derivation\<close>

lemma foldl_pushByStatus:
  "foldl pushByStatus (n, i, d) as =
     (n @ filter (\<lambda>a. status a = ''NOT_STARTED'') as,
      i @ filter (\<lambda>a. status a = ''IN_PROGRESS'') as,
      d @ filter (\<lambda>a. status a = ''DONE'') as)"
  by (induction as arbitrary: n i d) (simp_all add: pushByStatus_def)

lemma distributeByStatus_filter:
  "distributeByStatus as =
     (filter (\<lambda>a. status a = ''NOT_STARTED'') as,
      filter (\<lambda>a. status a = ''IN_PROGRESS'') as,
      filter (\<lambda>a. status a = ''DONE'') as)"
  by (simp add: distributeByStatus_def foldl_pushByStatus)

lemma resetColumns_filter:
  "resetColumns as =
     [\<lparr>column_id = ''not-started'', column_title = ''Not Started'',
        column_assignments = filter (\<lambda>a. status a = ''NOT_STARTED'') as\<rparr>,
      \<lparr>column_id = ''in-progress'', column_title = ''In Progress'',
        column_assignments = filter (\<lambda>a. status a = ''IN_PROGRESS'') as\<rparr>,
      \<lparr>column_id = ''done'', column_title = ''Done'',
        column_assignments = filter (\<lambda>a. status a = ''DONE'') as\<rparr>]"
  by (simp add: resetColumns_def distributeByStatus_filter)

lemma columns_mset:
  "mset (concat (map column_assignments (resetColumns as))) =
   filter_mset (\<lambda>a. status a = ''NOT_STARTED'' \<or> status a = ''IN_PROGRESS'' \<or> status a = ''DONE'')
     (mset as)"
  by (induction as) (auto simp add: resetColumns_filter)

text \<open>
  Claim C4. The status effect yields exactly the three columns \<open>not-started\<close>,
  \<open>in-progress\<close> and \<open>done\<close>, in this order, and the assignments of each are the board's
  assignments of that status in the board's order (a \<open>filter\<close> of the board's sequence).
  For a board \<open>[A, B, C]\<close> where \<open>A\<close> is done, \<open>B\<close> not started and \<open>C\<close> in progress, the
  columns are \<open>[B]\<close>, \<open>[C]\<close> and \<open>[A]\<close>.
\<close>

theorem columns_by_status:
  "resetColumns as =
     [\<lparr>column_id = ''not-started'', column_title = ''Not Started'',
        column_assignments = filter (\<lambda>a. status a = ''NOT_STARTED'') as\<rparr>,
      \<lparr>column_id = ''in-progress'', column_title = ''In Progress'',
        column_assignments = filter (\<lambda>a. status a = ''IN_PROGRESS'') as\<rparr>,
      \<lparr>column_id = ''done'', column_title = ''Done'',
        column_assignments = filter (\<lambda>a. status a = ''DONE'') as\<rparr>]
   \<and> (status A = ''DONE'' \<and> status B = ''NOT_STARTED'' \<and> status C = ''IN_PROGRESS'' \<longrightarrow>
        columnOf ''not-started'' (resetColumns [A, B, C]) = [B]
        \<and> columnOf ''in-progress'' (resetColumns [A, B, C]) = [C]
        \<and> columnOf ''done'' (resetColumns [A, B, C]) = [A])"
  by (simp add: resetColumns_filter columnOf_def)

theorem columns_by_status_witness:
  "status (cardOf 1 ''DONE'' 0) = ''DONE'' \<and> status (cardOf 2 ''NOT_STARTED'' 5) = ''NOT_STARTED''
   \<and> status (cardOf 3 ''IN_PROGRESS'' 9) = ''IN_PROGRESS''
   \<and> columnOf ''not-started''
        (resetColumns [cardOf 1 ''DONE'' 0, cardOf 2 ''NOT_STARTED'' 5, cardOf 3 ''IN_PROGRESS'' 9])
       = [cardOf 2 ''NOT_STARTED'' 5]
   \<and> columnOf ''in-progress''
        (resetColumns [cardOf 1 ''DONE'' 0, cardOf 2 ''NOT_STARTED'' 5, cardOf 3 ''IN_PROGRESS'' 9])
       = [cardOf 3 ''IN_PROGRESS'' 9]
   \<and> columnOf ''done''
        (resetColumns [cardOf 1 ''DONE'' 0, cardOf 2 ''NOT_STARTED'' 5, cardOf 3 ''IN_PROGRESS'' 9])
       = [cardOf 1 ''DONE'' 0]"
proof -
  have h: "status (cardOf 1 ''DONE'' 0) = ''DONE'' \<and> status (cardOf 2 ''NOT_STARTED'' 5) = ''NOT_STARTED''
      \<and> status (cardOf 3 ''IN_PROGRESS'' 9) = ''IN_PROGRESS''"
    by (simp add: cardOf_def)
  from h columns_by_status [where as = "[]" and A = "cardOf 1 ''DONE'' 0"
      and B = "cardOf 2 ''NOT_STARTED'' 5" and C = "cardOf 3 ''IN_PROGRESS'' 9"]
  show ?thesis by blast
qed

text \<open>
  Claim C10. The \<open>switch\<close> has no \<open>default\<close>: an assignment whose status is none of
  \<open>NOT_STARTED\<close>, \<open>IN_PROGRESS\<close> and \<open>DONE\<close> is in no column, and the three columns together
  hold the board's assignments (as a multiset) exactly when every status on the board is
  one of the three.
\<close>

theorem columns_total_iff:
  "(status a \<notin> {''NOT_STARTED'', ''IN_PROGRESS'', ''DONE''} \<longrightarrow>
      (\<forall>c \<in> set (resetColumns as). a \<notin> set (column_assignments c)))
   \<and> (mset (concat (map column_assignments (resetColumns as))) = mset as
        \<longleftrightarrow> (\<forall>a \<in> set as. status a \<in> {''NOT_STARTED'', ''IN_PROGRESS'', ''DONE''}))"
proof -
  have "filter_mset P M = M \<longleftrightarrow> (\<forall>x \<in># M. P x)" for P and M :: "assignmentWithId multiset"
    by (auto simp add: filter_mset_eq_conv)
  then have total: "mset (concat (map column_assignments (resetColumns as))) = mset as
      \<longleftrightarrow> (\<forall>a \<in> set as. status a \<in> {''NOT_STARTED'', ''IN_PROGRESS'', ''DONE''})"
    unfolding columns_mset by simp
  have "status a \<notin> {''NOT_STARTED'', ''IN_PROGRESS'', ''DONE''} \<longrightarrow>
      (\<forall>c \<in> set (resetColumns as). a \<notin> set (column_assignments c))"
    by (auto simp add: resetColumns_filter)
  with total show ?thesis by blast
qed

theorem columns_total_iff_witness:
  "status (cardOf 4 ''ARCHIVED'' 0) \<notin> {''NOT_STARTED'', ''IN_PROGRESS'', ''DONE''}
   \<and> cardOf 4 ''ARCHIVED'' 0
       \<notin> set (concat (map column_assignments (resetColumns [cardOf 1 ''DONE'' 0, cardOf 4 ''ARCHIVED'' 0])))
   \<and> mset (concat (map column_assignments (resetColumns [cardOf 1 ''DONE'' 0, cardOf 4 ''ARCHIVED'' 0])))
       \<noteq> mset [cardOf 1 ''DONE'' 0, cardOf 4 ''ARCHIVED'' 0]
   \<and> list_all (\<lambda>a. status a \<in> {''NOT_STARTED'', ''IN_PROGRESS'', ''DONE''})
         [cardOf 1 ''DONE'' 0, cardOf 2 ''NOT_STARTED'' 5]
   \<and> mset (concat (map column_assignments (resetColumns [cardOf 1 ''DONE'' 0, cardOf 2 ''NOT_STARTED'' 5])))
       = mset [cardOf 1 ''DONE'' 0, cardOf 2 ''NOT_STARTED'' 5]"
proof -
  have h1: "status (cardOf 4 ''ARCHIVED'' 0) \<notin> {''NOT_STARTED'', ''IN_PROGRESS'', ''DONE''}"
    by (simp add: cardOf_def)
  have h2: "\<forall>a \<in> set [cardOf 1 ''DONE'' 0, cardOf 2 ''NOT_STARTED'' 5].
      status a \<in> {''NOT_STARTED'', ''IN_PROGRESS'', ''DONE''}"
    by (simp add: cardOf_def)
  have h3: "\<not> (\<forall>a \<in> set [cardOf 1 ''DONE'' 0, cardOf 4 ''ARCHIVED'' 0].
      status a \<in> {''NOT_STARTED'', ''IN_PROGRESS'', ''DONE''})"
    by (simp add: cardOf_def)
  from h1 h2 h3
    columns_total_iff [of "cardOf 4 ''ARCHIVED'' 0" "[cardOf 1 ''DONE'' 0, cardOf 4 ''ARCHIVED'' 0]"]
    columns_total_iff [of "cardOf 1 ''DONE'' 0" "[cardOf 1 ''DONE'' 0, cardOf 2 ''NOT_STARTED'' 5]"]
  show ?thesis unfolding list_all_iff set_concat set_map by blast
qed


section \<open>Weeks\<close>

lemma msPerDay_pos: "0 < msPerDay"
  by (simp add: msPerDay_def)

lemma msPerWeek_pos: "0 < msPerWeek"
  by (simp add: msPerWeek_def msPerDay_def)

lemma weekday_diff:
  fixes q :: int
  defines "diff \<equiv> (if (q + 4) mod 7 < 1 then 7 else 0) + (q + 4) mod 7 - 1"
  shows "0 \<le> diff" and "(q - diff + 4) mod 7 = 1"
proof -
  have g: "0 \<le> (q + 4) mod 7" by simp
  then show "0 \<le> diff" by (auto simp add: diff_def)
  show "(q - diff + 4) mod 7 = 1"
  proof (cases "(q + 4) mod 7 < 1")
    case True
    with g have g0: "(q + 4) mod 7 = 0" by linarith
    then have "(q - 6 + 4) mod 7 = 1" by presburger
    with g0 show ?thesis by (simp add: diff_def)
  next
    case False
    have "(q - ((q + 4) mod 7 - 1) + 4) mod 7 = ((q + 5) - (q + 4) mod 7) mod 7"
      by (simp add: algebra_simps)
    also have "\<dots> = ((q + 5) - (q + 4)) mod 7"
      by (simp only: mod_diff_right_eq)
    finally show ?thesis using False by (simp add: diff_def)
  qed
qed

lemma startOfWeek_isWeekStart: "isWeekStart (startOfWeek 1 d)"
  using weekday_diff(2) [of "d div msPerDay"] msPerDay_pos
  by (simp add: isWeekStart_def startOfWeek_def getDay_def Let_def)

lemma startOfWeek_le: "startOfWeek 1 d \<le> d"
proof -
  let ?q = "d div msPerDay"
  let ?diff = "(if (?q + 4) mod 7 < 1 then 7 else 0) + (?q + 4) mod 7 - 1"
  have "(?q - ?diff) * msPerDay \<le> ?q * msPerDay"
    using msPerDay_pos weekday_diff(1) [of ?q] by (intro mult_right_mono) simp_all
  also have "\<dots> \<le> d"
    using div_mult_mod_eq [of d msPerDay] pos_mod_sign [of msPerDay d] msPerDay_pos by linarith
  finally show ?thesis
    by (simp add: startOfWeek_def getDay_def Let_def)
qed

lemma endOfWeek_weekStart:
  assumes "isWeekStart m"
  shows "endOfWeek 1 m = m + msPerWeek - 1"
proof -
  from assms have g: "getDay m = 1" and m: "m = (m div msPerDay) * msPerDay"
    by (auto simp add: isWeekStart_def)
  have "endOfWeek 1 m = (m div msPerDay + 6) * msPerDay + (msPerDay - 1)"
    by (simp add: endOfWeek_def g Let_def)
  also have "\<dots> = (m div msPerDay) * msPerDay + msPerWeek - 1"
    by (simp add: msPerWeek_def algebra_simps)
  finally show ?thesis
    using m by simp
qed

lemma addDays_week: "addDays m 7 = m + msPerWeek"
  by (simp add: addDays_def msPerWeek_def)

lemma addDays_isWeekStart:
  assumes "isWeekStart m"
  shows "isWeekStart (m + msPerWeek)"
proof -
  have "(m + 7 * msPerDay) div msPerDay = m div msPerDay + 7"
    using msPerDay_pos by simp
  moreover have "(q + 4) mod 7 = 1 \<Longrightarrow> (q + 7 + 4) mod 7 = 1" for q :: int
    by presburger
  ultimately show ?thesis
    using assms by (simp add: isWeekStart_def getDay_def msPerWeek_def)
qed

text \<open>A loop invariant holds of the result, with the first week start after the latest date.\<close>

lemma weekLoop_invariant:
  assumes "I m n boards"
    and "\<And>m n boards. I m n boards \<Longrightarrow> m \<le> latest \<Longrightarrow>
           filter (inWeek m (endOfWeek 1 m)) items \<noteq> [] \<Longrightarrow>
           I (addDays m 7) (n + 1)
             (boards @ [\<lparr>weekNumber = n, startDate = m, endDate = endOfWeek 1 m,
                          title = weekTitle n m (endOfWeek 1 m),
                          board_assignments = filter (inWeek m (endOfWeek 1 m)) items\<rparr>])"
    and "\<And>m n boards. I m n boards \<Longrightarrow> m \<le> latest \<Longrightarrow>
           filter (inWeek m (endOfWeek 1 m)) items = [] \<Longrightarrow> I (addDays m 7) n boards"
  shows "\<exists>m' n'. latest < m' \<and> I m' n' (weekLoop items latest m n boards)"
  using assms
proof (induction items latest m n boards rule: weekLoop.induct)
  case (1 items latest m n boards)
  let ?ws = "filter (\<lambda>a. isWithinInterval (dueDateTime a) m (endOfWeek 1 m)) items"
  have fold: "?ws = filter (inWeek m (endOfWeek 1 m)) items"
    by (rule filter_cong) (simp_all add: inWeek_def)
  note step1 = "1.prems"(2) and step2 = "1.prems"(3)
  show ?case
  proof (cases "m \<le> latest")
    case False
    have "weekLoop items latest m n boards = boards"
      using False by (subst weekLoop.simps) simp
    moreover from False have "latest < m" by simp
    ultimately show ?thesis using "1.prems"(1) by auto
  next
    case True
    show ?thesis
    proof (cases "0 < length ?ws")
      case False
      then have empty: "filter (inWeek m (endOfWeek 1 m)) items = []"
        by (simp add: fold)
      from "1.prems"(1) True empty have "I (addDays m 7) n boards"
        by (rule step2)
      from "1.IH"(2) [OF True refl refl False this step1 step2]
      have "\<exists>m' n'. latest < m' \<and> I m' n' (weekLoop items latest (addDays m 7) n boards)" .
      moreover have "weekLoop items latest m n boards = weekLoop items latest (addDays m 7) n boards"
        using True False by (subst weekLoop.simps) (simp add: Let_def)
      ultimately show ?thesis by simp
    next
      case nonempty: True
      let ?b = "\<lparr>weekNumber = n, startDate = m, endDate = endOfWeek 1 m,
                 title = weekTitle n m (endOfWeek 1 m), board_assignments = ?ws\<rparr>"
      from nonempty have "filter (inWeek m (endOfWeek 1 m)) items \<noteq> []"
        by (simp add: fold)
      with "1.prems"(1) True have "I (addDays m 7) (n + 1) (boards @ [?b])"
        unfolding fold by (rule step1)
      from "1.IH"(1) [OF True refl refl nonempty this step1 step2]
      have "\<exists>m' n'. latest < m' \<and> I m' n' (weekLoop items latest (addDays m 7) (n + 1) (boards @ [?b]))" .
      moreover have "weekLoop items latest m n boards
          = weekLoop items latest (addDays m 7) (n + 1) (boards @ [?b])"
        using True nonempty by (subst weekLoop.simps) (simp add: Let_def)
      ultimately show ?thesis by simp
    qed
  qed
qed


lemma filter_sorted_split:
  fixes f :: "'a \<Rightarrow> int"
  assumes "sorted (map f xs)" and "lo \<le> mid" and "mid \<le> hi"
  shows "filter (\<lambda>a. lo \<le> f a \<and> f a < mid) xs @ filter (\<lambda>a. mid \<le> f a \<and> f a < hi) xs
         = filter (\<lambda>a. lo \<le> f a \<and> f a < hi) xs"
  using assms(1)
proof (induction xs)
  case Nil
  show ?case by simp
next
  case (Cons x xs)
  then have le: "\<forall>y \<in> set xs. f x \<le> f y" and IH:
    "filter (\<lambda>a. lo \<le> f a \<and> f a < mid) xs @ filter (\<lambda>a. mid \<le> f a \<and> f a < hi) xs
       = filter (\<lambda>a. lo \<le> f a \<and> f a < hi) xs"
    by simp_all
  show ?case
  proof (cases "mid \<le> f x")
    case True
    with le have "filter (\<lambda>a. lo \<le> f a \<and> f a < mid) xs = []"
      by (auto simp add: filter_empty_conv)
    with IH True assms(2) show ?thesis by simp
  next
    case False
    with IH assms(3) show ?thesis by simp
  qed
qed

lemma weekInv_init:
  "weekInv items (startOfWeek 1 d) (startOfWeek 1 d) 1 []"
  by (simp add: weekInv_def startOfWeek_isWeekStart)

lemma weekInv_skip:
  assumes inv: "weekInv items start m n boards"
    and empty: "filter (inWeek m (endOfWeek 1 m)) items = []"
  shows "weekInv items start (addDays m 7) n boards"
proof -
  from inv have ws: "isWeekStart m" and sm: "start \<le> m" and n: "n = Suc (length boards)"
    and nums: "map weekNumber boards = [1..<n]"
    and ord: "sorted_wrt (\<lambda>b c. endDate b < startDate c) boards"
    and each: "\<forall>b \<in> set boards. weekOf items b \<and> endDate b < m"
    and cat: "concat (map board_assignments boards) =
         filter (\<lambda>a. start \<le> dueDateTime a \<and> dueDateTime a < m) items"
    unfolding weekInv_def by blast+
  have "filter (\<lambda>a. start \<le> dueDateTime a \<and> dueDateTime a < m) items
        = filter (\<lambda>a. start \<le> dueDateTime a \<and> dueDateTime a < m + msPerWeek) items"
  proof (rule filter_cong [OF refl])
    fix a assume "a \<in> set items"
    with empty have "\<not> inWeek m (m + msPerWeek - 1) a"
      by (simp add: filter_empty_conv endOfWeek_weekStart [OF ws])
    then show "(start \<le> dueDateTime a \<and> dueDateTime a < m)
        = (start \<le> dueDateTime a \<and> dueDateTime a < m + msPerWeek)"
      using msPerWeek_pos by (auto simp add: inWeek_def isWithinInterval_def)
  qed
  with cat have cat': "concat (map board_assignments boards)
      = filter (\<lambda>a. start \<le> dueDateTime a \<and> dueDateTime a < m + msPerWeek) items"
    by simp
  from each msPerWeek_pos
  have each': "\<forall>b \<in> set boards. weekOf items b \<and> endDate b < m + msPerWeek"
    by fastforce
  from sm msPerWeek_pos have "start \<le> m + msPerWeek" by simp
  with addDays_isWeekStart [OF ws] n nums ord each' cat' show ?thesis
    unfolding weekInv_def addDays_week by blast
qed

lemma weekInv_push:
  assumes sorted: "sorted (map dueDateTime items)"
    and inv: "weekInv items start m n boards"
    and nonempty: "filter (inWeek m (endOfWeek 1 m)) items \<noteq> []"
  shows "weekInv items start (addDays m 7) (n + 1)
           (boards @ [\<lparr>weekNumber = n, startDate = m, endDate = endOfWeek 1 m,
                        title = weekTitle n m (endOfWeek 1 m),
                        board_assignments = filter (inWeek m (endOfWeek 1 m)) items\<rparr>])"
proof -
  from inv have ws: "isWeekStart m" and sm: "start \<le> m" and n: "n = Suc (length boards)"
    and nums: "map weekNumber boards = [1..<n]"
    and ord: "sorted_wrt (\<lambda>b c. endDate b < startDate c) boards"
    and each: "\<forall>b \<in> set boards. weekOf items b \<and> endDate b < m"
    and cat: "concat (map board_assignments boards) =
         filter (\<lambda>a. start \<le> dueDateTime a \<and> dueDateTime a < m) items"
    unfolding weekInv_def by blast+
  have e: "endOfWeek 1 m = m + msPerWeek - 1"
    by (rule endOfWeek_weekStart [OF ws])
  let ?b = "\<lparr>weekNumber = n, startDate = m, endDate = endOfWeek 1 m,
             title = weekTitle n m (endOfWeek 1 m),
             board_assignments = filter (inWeek m (endOfWeek 1 m)) items\<rparr>"
  have week: "filter (inWeek m (endOfWeek 1 m)) items
      = filter (\<lambda>a. m \<le> dueDateTime a \<and> dueDateTime a < m + msPerWeek) items"
    by (rule filter_cong) (auto simp add: e inWeek_def isWithinInterval_def)
  have "concat (map board_assignments boards) @ filter (inWeek m (endOfWeek 1 m)) items
      = filter (\<lambda>a. start \<le> dueDateTime a \<and> dueDateTime a < m + msPerWeek) items"
    unfolding cat week using sorted sm msPerWeek_pos
    by (intro filter_sorted_split) simp_all
  then have cat': "concat (map board_assignments (boards @ [?b]))
      = filter (\<lambda>a. start \<le> dueDateTime a \<and> dueDateTime a < m + msPerWeek) items"
    by simp
  have new: "weekOf items ?b \<and> endDate ?b < m + msPerWeek"
    using ws nonempty by (simp add: weekOf_def e)
  from each msPerWeek_pos
  have old: "\<forall>b \<in> set boards. weekOf items b \<and> endDate b < m + msPerWeek"
    by fastforce
  from old new have each': "\<forall>b \<in> set (boards @ [?b]). weekOf items b \<and> endDate b < m + msPerWeek"
    by simp
  have ord': "sorted_wrt (\<lambda>b c. endDate b < startDate c) (boards @ [?b])"
    using ord each by (simp add: sorted_wrt_append)
  have nums': "map weekNumber (boards @ [?b]) = [1..<n + 1]"
    using nums n by simp
  have n': "n + 1 = Suc (length (boards @ [?b]))"
    using n by simp
  from sm msPerWeek_pos have "start \<le> m + msPerWeek" by simp
  with addDays_isWeekStart [OF ws] n' nums' ord' each' cat' show ?thesis
    unfolding weekInv_def addDays_week by blast
qed

lemma weekLoop_weekInv:
  assumes "sorted (map dueDateTime items)" and "weekInv items start m n boards"
  shows "\<exists>m' n'. latest < m' \<and> weekInv items start m' n' (weekLoop items latest m n boards)"
  using assms(2)
proof (rule weekLoop_invariant)
  fix m n boards
  assume "weekInv items start m n boards" "filter (inWeek m (endOfWeek 1 m)) items \<noteq> []"
  with assms(1)
  show "weekInv items start (addDays m 7) (n + 1)
           (boards @ [\<lparr>weekNumber = n, startDate = m, endDate = endOfWeek 1 m,
                        title = weekTitle n m (endOfWeek 1 m),
                        board_assignments = filter (inWeek m (endOfWeek 1 m)) items\<rparr>])"
    by (rule weekInv_push)
next
  fix m n boards
  assume "weekInv items start m n boards" "filter (inWeek m (endOfWeek 1 m)) items = []"
  then show "weekInv items start (addDays m 7) n boards"
    by (rule weekInv_skip)
qed


section \<open>The boards that \<open>weeklyBoards\<close> returns\<close>

lemma sorted_sortedAssignments: "sorted (map dueDateTime (sortedAssignments parser clock d))"
  by (simp add: sortedAssignments_def)

lemma weeklyBoards_empty:
  "sortedAssignments parser clock d = [] \<Longrightarrow> weeklyBoards parser clock d = []"
  by (simp add: weeklyBoards_def sortedAssignments_def)

lemma weeklyBoards_loop:
  assumes "sortedAssignments parser clock d \<noteq> []"
  shows "weeklyBoards parser clock d =
     weekLoop (sortedAssignments parser clock d)
       (dueDateTime (last (sortedAssignments parser clock d)))
       (startOfWeek 1 (dueDateTime (hd (sortedAssignments parser clock d)))) 1 []"
  using assms
  by (simp add: weeklyBoards_def sortedAssignments_def Let_def hd_conv_nth last_conv_nth)

lemma sorted_bounds:
  fixes f :: "'a \<Rightarrow> int"
  assumes "sorted (map f xs)" and "a \<in> set xs"
  shows "f (hd xs) \<le> f a" and "f a \<le> f (last xs)"
proof -
  from assms(2) obtain i where i: "i < length xs" "a = xs ! i"
    by (auto simp add: in_set_conv_nth)
  then have ne: "xs \<noteq> []" by auto
  from assms(1) i have "map f xs ! 0 \<le> map f xs ! i"
    by (intro sorted_nth_mono) simp_all
  with i ne show "f (hd xs) \<le> f a" by (simp add: hd_conv_nth)
  from assms(1) i have "map f xs ! i \<le> map f xs ! (length xs - 1)"
    by (intro sorted_nth_mono) simp_all
  with i ne show "f a \<le> f (last xs)" by (simp add: last_conv_nth)
qed

lemma weeklyBoards_weekInv:
  assumes "sortedAssignments parser clock d \<noteq> []"
  shows "\<exists>m' n'. dueDateTime (last (sortedAssignments parser clock d)) < m'
           \<and> weekInv (sortedAssignments parser clock d)
                (startOfWeek 1 (dueDateTime (hd (sortedAssignments parser clock d)))) m' n'
                (weeklyBoards parser clock d)"
  unfolding weeklyBoards_loop [OF assms]
  by (rule weekLoop_weekInv [OF sorted_sortedAssignments weekInv_init])

lemma boards_concat:
  "concat (map board_assignments (weeklyBoards parser clock d)) = sortedAssignments parser clock d"
proof (cases "sortedAssignments parser clock d = []")
  case True
  then show ?thesis by (simp add: weeklyBoards_empty)
next
  case False
  let ?items = "sortedAssignments parser clock d"
  let ?start = "startOfWeek 1 (dueDateTime (hd ?items))"
  from weeklyBoards_weekInv [OF False] obtain m' n'
    where late: "dueDateTime (last ?items) < m'"
      and inv: "weekInv ?items ?start m' n' (weeklyBoards parser clock d)"
    by blast
  from inv have "concat (map board_assignments (weeklyBoards parser clock d))
      = filter (\<lambda>a. ?start \<le> dueDateTime a \<and> dueDateTime a < m') ?items"
    unfolding weekInv_def by blast
  also have "\<dots> = ?items"
  proof (rule filter_True, intro ballI)
    fix a assume a: "a \<in> set ?items"
    from sorted_bounds [OF sorted_sortedAssignments a] late startOfWeek_le [of "dueDateTime (hd ?items)"]
    show "?start \<le> dueDateTime a \<and> dueDateTime a < m'"
      by linarith
  qed
  finally show ?thesis .
qed

lemma boards_numbers:
  "map weekNumber (weeklyBoards parser clock d) = [1..<Suc (length (weeklyBoards parser clock d))]"
proof (cases "sortedAssignments parser clock d = []")
  case True
  then show ?thesis by (simp add: weeklyBoards_empty)
next
  case False
  from weeklyBoards_weekInv [OF False] show ?thesis
    unfolding weekInv_def by auto
qed

lemma boards_ordered:
  "sorted_wrt (\<lambda>b c. endDate b < startDate c) (weeklyBoards parser clock d)"
proof (cases "sortedAssignments parser clock d = []")
  case True
  then show ?thesis by (simp add: weeklyBoards_empty)
next
  case False
  from weeklyBoards_weekInv [OF False] show ?thesis
    unfolding weekInv_def by blast
qed

lemma boards_weekOf:
  assumes "b \<in> set (weeklyBoards parser clock d)"
  shows "weekOf (sortedAssignments parser clock d) b"
proof (cases "sortedAssignments parser clock d = []")
  case True
  with assms show ?thesis by (simp add: weeklyBoards_empty)
next
  case False
  from weeklyBoards_weekInv [OF False] assms show ?thesis
    unfolding weekInv_def by blast
qed

lemma board_member_within:
  assumes "b \<in> set (weeklyBoards parser clock d)" and "a \<in> set (board_assignments b)"
  shows "startDate b \<le> dueDateTime a" and "dueDateTime a \<le> endDate b"
proof -
  from boards_weekOf [OF assms(1)]
  have "board_assignments b = filter (inWeek (startDate b) (endDate b)) (sortedAssignments parser clock d)"
    unfolding weekOf_def by blast
  with assms(2) have "inWeek (startDate b) (endDate b) a" by simp
  then show "startDate b \<le> dueDateTime a" and "dueDateTime a \<le> endDate b"
    by (simp_all add: inWeek_def isWithinInterval_def)
qed

lemma board_interval:
  assumes "b \<in> set (weeklyBoards parser clock d)"
  shows "startDate b \<le> endDate b" and "board_assignments b \<noteq> []"
proof -
  from boards_weekOf [OF assms] have "endDate b = startDate b + msPerWeek - 1"
    and ne: "board_assignments b \<noteq> []"
    unfolding weekOf_def by blast+
  with msPerWeek_pos show "startDate b \<le> endDate b" by simp
  from ne show "board_assignments b \<noteq> []" .
qed

lemma boards_disjoint:
  assumes "i < j" and "j < length (weeklyBoards parser clock d)"
  shows "endDate (weeklyBoards parser clock d ! i) < startDate (weeklyBoards parser clock d ! j)"
  using boards_ordered [of parser clock d] assms by (simp add: sorted_wrt_iff_nth_less)

lemma in_one_board:
  assumes "a \<in> set (sortedAssignments parser clock d)"
  shows "\<exists>!k. k < length (weeklyBoards parser clock d)
           \<and> a \<in> set (board_assignments (weeklyBoards parser clock d ! k))"
proof -
  let ?bs = "weeklyBoards parser clock d"
  have within: "startDate (?bs ! k) \<le> dueDateTime a \<and> dueDateTime a \<le> endDate (?bs ! k)"
    if "k < length ?bs" "a \<in> set (board_assignments (?bs ! k))" for k
    using board_member_within [of "?bs ! k" parser clock d a] that by simp
  from assms have "a \<in> set (concat (map board_assignments ?bs))"
    by (simp only: boards_concat)
  then obtain b where "b \<in> set ?bs" "a \<in> set (board_assignments b)" by auto
  then obtain k where k: "k < length ?bs" "a \<in> set (board_assignments (?bs ! k))"
    by (auto simp add: in_set_conv_nth)
  show ?thesis
  proof (rule ex1I [of _ k])
    from k show "k < length ?bs \<and> a \<in> set (board_assignments (?bs ! k))" by simp
  next
    fix k' assume k': "k' < length ?bs \<and> a \<in> set (board_assignments (?bs ! k'))"
    show "k' = k"
    proof (rule ccontr)
      assume "k' \<noteq> k"
      then consider "k' < k" | "k < k'" by linarith
      then show False
      proof cases
        case 1
        from boards_disjoint [OF 1 k(1)] within [OF k] within [of k'] k' show False by simp
      next
        case 2
        from boards_disjoint [OF 2, of parser clock d] within [OF k] within [of k'] k' show False by simp
      qed
    qed
  qed
qed


lemma length_assignmentsWithId [simp]:
  "length (assignmentsWithId parser clock as) = length as"
  by (simp add: assignmentsWithId_def)

lemma nth_assignmentsWithId:
  "i < length as \<Longrightarrow>
   assignmentsWithId parser clock as ! i = toAssignmentWithId parser (clock i) (as ! i)"
  by (simp add: assignmentsWithId_def nth_enumerate_eq)

lemma dueDateTime_toAssignmentWithId:
  "dueDateTime (toAssignmentWithId parser now a) =
     (case parser (due_date a @ '' '' @ due_time a) of Some d \<Rightarrow> d | None \<Rightarrow> now)"
  by (simp add: toAssignmentWithId_def Let_def courseAssignment.defs assignmentWithId.defs)

lemma set_sortedAssignments:
  "set (sortedAssignments parser clock d) = set (assignmentsWithId parser clock (allAssignments d))"
  by (simp add: sortedAssignments_def)

text \<open>
  Claim C1. The boards hold the assignments of the input, each exactly once: the
  assignments of the boards, one board after the other, are the input assignments (with
  their due instants) sorted by due instant, so as a multiset they are the input; the
  board sizes add up to the number of input assignments; every input assignment is on
  exactly one board; and a non-empty input gives at least one board. This holds for
  every parser, clock and input, the empty one included.
\<close>

theorem boards_hold_every_assignment_once:
  "concat (map board_assignments (weeklyBoards parser clock d))
     = sort_key dueDateTime (assignmentsWithId parser clock (allAssignments d))
   \<and> mset (concat (map board_assignments (weeklyBoards parser clock d)))
     = mset (assignmentsWithId parser clock (allAssignments d))
   \<and> sum_list (map (\<lambda>b. length (board_assignments b)) (weeklyBoards parser clock d))
     = length (allAssignments d)
   \<and> (\<forall>a \<in> set (assignmentsWithId parser clock (allAssignments d)).
        \<exists>!k. k < length (weeklyBoards parser clock d)
           \<and> a \<in> set (board_assignments (weeklyBoards parser clock d ! k)))
   \<and> (allAssignments d \<noteq> [] \<longrightarrow> weeklyBoards parser clock d \<noteq> [])"
proof -
  let ?bs = "weeklyBoards parser clock d"
  let ?as = "assignmentsWithId parser clock (allAssignments d)"
  have cat: "concat (map board_assignments ?bs) = sort_key dueDateTime ?as"
    by (simp add: boards_concat sortedAssignments_def)
  then have m: "mset (concat (map board_assignments ?bs)) = mset ?as"
    by simp
  have "length (concat (map board_assignments ?bs)) = length (allAssignments d)"
    by (simp add: cat)
  then have s: "sum_list (map (\<lambda>b. length (board_assignments b)) ?bs) = length (allAssignments d)"
    by (simp add: length_concat comp_def)
  have o: "\<forall>a \<in> set ?as. \<exists>!k. k < length ?bs \<and> a \<in> set (board_assignments (?bs ! k))"
    using in_one_board [of _ parser clock d] by (simp add: set_sortedAssignments)
  have n: "allAssignments d \<noteq> [] \<longrightarrow> ?bs \<noteq> []"
    using s by auto
  from cat m s o n show ?thesis by blast
qed

theorem boards_hold_every_assignment_once_witness:
  "mset (concat (map board_assignments (weeklyBoards parse noon (Single cs251))))
     = mset (assignmentsWithId parse noon (allAssignments (Single cs251)))
   \<and> sum_list (map (\<lambda>b. length (board_assignments b)) (weeklyBoards parse noon (Single cs251))) = 3
   \<and> map (\<lambda>b. map assignment_id (board_assignments b)) (weeklyBoards parse noon (Single cs251))
     = [[1], [2, 3]]
   \<and> (\<exists>!k. k < length (weeklyBoards parse noon (Single cs251))
         \<and> assignmentsWithId parse noon (allAssignments (Single cs251)) ! 0
             \<in> set (board_assignments (weeklyBoards parse noon (Single cs251) ! k)))
   \<and> weeklyBoards parse noon (Single cs251) \<noteq> []"
proof -
  have len: "length (allAssignments (Single cs251)) = 3"
    by code_simp
  then have mem: "assignmentsWithId parse noon (allAssignments (Single cs251)) ! 0
      \<in> set (assignmentsWithId parse noon (allAssignments (Single cs251)))"
    by (intro nth_mem) simp
  from len have ne: "allAssignments (Single cs251) \<noteq> []"
    by auto
  have ids: "map (\<lambda>b. map assignment_id (board_assignments b)) (weeklyBoards parse noon (Single cs251))
     = [[1], [2, 3]]"
    by code_simp
  from boards_hold_every_assignment_once [of parse noon "Single cs251"] len mem ne ids
  show ?thesis by simp
qed

text \<open>
  Claim C2. The week numbers of the boards are \<open>1, 2, ..., n\<close> in this order, without a
  gap; every board ends before each later board starts, so no two intervals overlap; and
  every board is a Monday-to-Sunday week with at least one assignment (a week without
  assignments gives no board and takes no number).
\<close>

theorem boards_numbered_and_ordered:
  "map weekNumber (weeklyBoards parser clock d) = [1..<Suc (length (weeklyBoards parser clock d))]
   \<and> (\<forall>i j. i < j \<and> j < length (weeklyBoards parser clock d) \<longrightarrow>
         endDate (weeklyBoards parser clock d ! i) < startDate (weeklyBoards parser clock d ! j))
   \<and> (\<forall>b \<in> set (weeklyBoards parser clock d).
         isWeekStart (startDate b) \<and> endDate b = startDate b + msPerWeek - 1
         \<and> startDate b \<le> endDate b \<and> board_assignments b \<noteq> [])"
proof -
  have "isWeekStart (startDate b) \<and> endDate b = startDate b + msPerWeek - 1
         \<and> startDate b \<le> endDate b \<and> board_assignments b \<noteq> []"
    if "b \<in> set (weeklyBoards parser clock d)" for b
    using boards_weekOf [OF that] board_interval [OF that] unfolding weekOf_def by blast
  with boards_numbers [of parser clock d] boards_disjoint [of _ _ parser clock d]
  show ?thesis by blast
qed

theorem boards_numbered_and_ordered_witness:
  "map weekNumber (weeklyBoards parse noon (Single cs251)) = [1, 2]
   \<and> map startDate (weeklyBoards parse noon (Single cs251)) = [1760313600000, 1762128000000]
   \<and> map endDate (weeklyBoards parse noon (Single cs251)) = [1760918399999, 1762732799999]
   \<and> endDate (weeklyBoards parse noon (Single cs251) ! 0)
       < startDate (weeklyBoards parse noon (Single cs251) ! 1)
   \<and> isWeekStart (startDate (weeklyBoards parse noon (Single cs251) ! 1))
   \<and> board_assignments (weeklyBoards parse noon (Single cs251) ! 1) \<noteq> []"
proof -
  have len: "length (weeklyBoards parse noon (Single cs251)) = 2"
    by code_simp
  then have mem: "weeklyBoards parse noon (Single cs251) ! 1 \<in> set (weeklyBoards parse noon (Single cs251))"
    by (intro nth_mem) simp
  have dates: "map startDate (weeklyBoards parse noon (Single cs251)) = [1760313600000, 1762128000000]"
    "map endDate (weeklyBoards parse noon (Single cs251)) = [1760918399999, 1762732799999]"
    by code_simp+
  have upt: "[1..<Suc 2] = [1, 2]" by code_simp
  from boards_numbered_and_ordered [of parse noon "Single cs251"]
  have nums: "map weekNumber (weeklyBoards parse noon (Single cs251))
      = [1..<Suc (length (weeklyBoards parse noon (Single cs251)))]"
    and ord: "(0::nat) < 1 \<and> 1 < length (weeklyBoards parse noon (Single cs251)) \<longrightarrow>
         endDate (weeklyBoards parse noon (Single cs251) ! 0)
           < startDate (weeklyBoards parse noon (Single cs251) ! 1)"
    and week: "\<forall>b \<in> set (weeklyBoards parse noon (Single cs251)).
         isWeekStart (startDate b) \<and> endDate b = startDate b + msPerWeek - 1
         \<and> startDate b \<le> endDate b \<and> board_assignments b \<noteq> []"
    by blast+
  from ord len have "endDate (weeklyBoards parse noon (Single cs251) ! 0)
      < startDate (weeklyBoards parse noon (Single cs251) ! 1)"
    by simp
  moreover from nums len upt have "map weekNumber (weeklyBoards parse noon (Single cs251)) = [1, 2]"
    by simp
  moreover from week mem have "isWeekStart (startDate (weeklyBoards parse noon (Single cs251) ! 1))
      \<and> board_assignments (weeklyBoards parse noon (Single cs251) ! 1) \<noteq> []"
    by blast
  ultimately show ?thesis using dates by blast
qed

text \<open>
  Claim C7. An input without assignments (no syllabus, or syllabi without assignments)
  gives the empty list of boards.
\<close>

theorem empty_input_no_boards:
  "allAssignments d = [] \<Longrightarrow> weeklyBoards parser clock d = []"
  by (simp add: weeklyBoards_def assignmentsWithId_def)

theorem empty_input_no_boards_witness:
  "allAssignments (Multiple []) = [] \<and> weeklyBoards parse noon (Multiple []) = []
   \<and> allAssignments (Single (cs251\<lparr>assignments := []\<rparr>)) = []
   \<and> weeklyBoards parse noon (Single (cs251\<lparr>assignments := []\<rparr>)) = []"
proof -
  have e: "allAssignments (Multiple []) = []" "allAssignments (Single (cs251\<lparr>assignments := []\<rparr>)) = []"
    by (simp_all add: allAssignments_def)
  from e empty_input_no_boards [of "Multiple []" parse noon]
    empty_input_no_boards [of "Single (cs251\<lparr>assignments := []\<rparr>)" parse noon]
  show ?thesis by simp
qed


text \<open>
  Claim C3. The date-time string of due date \<open>2025-10-19\<close> and due time \<open>11:59 PM\<close>
  parses to the instant whose calendar date is 19 October 2025 and whose time of day is
  23:59:00.000, which is then the assignment's \<open>dueDateTime\<close>; with an empty due time the
  string does not parse. Whenever the string of an input assignment does not parse (for
  any parser), its \<open>dueDateTime\<close> is the reading of the clock taken for it, and the
  assignment is on exactly one board.
\<close>

theorem parse_example_and_fallback:
  "parse (''2025-10-19'' @ '' '' @ ''11:59 PM'') = Some 1760918340000
   \<and> civilFromDays (1760918340000 div msPerDay) = (2025, 10, 19)
   \<and> 1760918340000 mod msPerDay = (23 * 60 + 59) * 60000
   \<and> parse (''2025-10-19'' @ '' '' @ []) = None
   \<and> (due_date a = ''2025-10-19'' \<and> due_time a = ''11:59 PM'' \<longrightarrow>
        dueDateTime (toAssignmentWithId parse now a) = 1760918340000)
   \<and> (\<forall>i < length (allAssignments d).
        parser (due_date (allAssignments d ! i) @ '' '' @ due_time (allAssignments d ! i)) = None \<longrightarrow>
          dueDateTime (assignmentsWithId parser clock (allAssignments d) ! i) = clock i
          \<and> (\<exists>!k. k < length (weeklyBoards parser clock d)
                \<and> assignmentsWithId parser clock (allAssignments d) ! i
                    \<in> set (board_assignments (weeklyBoards parser clock d ! k))))"
proof -
  have p1: "parse (''2025-10-19'' @ '' '' @ ''11:59 PM'') = Some 1760918340000"
    by code_simp
  have p2: "civilFromDays (1760918340000 div msPerDay) = (2025, 10, 19)"
    by code_simp
  have p3: "1760918340000 mod msPerDay = (23 * 60 + 59) * 60000"
    by code_simp
  have p4: "parse (''2025-10-19'' @ '' '' @ []) = None"
    by code_simp
  have p5: "due_date a = ''2025-10-19'' \<and> due_time a = ''11:59 PM'' \<longrightarrow>
        dueDateTime (toAssignmentWithId parse now a) = 1760918340000"
    using p1 by (simp add: dueDateTime_toAssignmentWithId)
  have p6: "dueDateTime (assignmentsWithId parser clock (allAssignments d) ! i) = clock i
          \<and> (\<exists>!k. k < length (weeklyBoards parser clock d)
                \<and> assignmentsWithId parser clock (allAssignments d) ! i
                    \<in> set (board_assignments (weeklyBoards parser clock d ! k)))"
    if i: "i < length (allAssignments d)"
      and fail: "parser (due_date (allAssignments d ! i) @ '' '' @ due_time (allAssignments d ! i)) = None"
    for i
  proof
    from i fail show "dueDateTime (assignmentsWithId parser clock (allAssignments d) ! i) = clock i"
      by (simp add: nth_assignmentsWithId dueDateTime_toAssignmentWithId)
    from i have "assignmentsWithId parser clock (allAssignments d) ! i
        \<in> set (sortedAssignments parser clock d)"
      by (simp add: set_sortedAssignments)
    then show "\<exists>!k. k < length (weeklyBoards parser clock d)
                \<and> assignmentsWithId parser clock (allAssignments d) ! i
                    \<in> set (board_assignments (weeklyBoards parser clock d ! k))"
      by (rule in_one_board)
  qed
  from p1 p2 p3 p4 p5 p6 show ?thesis by blast
qed

theorem parse_example_and_fallback_witness:
  "due_date hw1 = ''2025-10-19'' \<and> due_time hw1 = ''11:59 PM''
   \<and> dueDateTime (toAssignmentWithId parse 0 (withCourse cs251 hw1)) = 1760918340000
   \<and> parse (due_date (allAssignments (Single cs251) ! 2) @ '' ''
              @ due_time (allAssignments (Single cs251) ! 2)) = None
   \<and> dueDateTime (assignmentsWithId parse noon (allAssignments (Single cs251)) ! 2) = noon 2
   \<and> (\<exists>!k. k < length (weeklyBoards parse noon (Single cs251))
          \<and> assignmentsWithId parse noon (allAssignments (Single cs251)) ! 2
              \<in> set (board_assignments (weeklyBoards parse noon (Single cs251) ! k)))"
proof -
  have h1: "due_date (withCourse cs251 hw1) = ''2025-10-19'' \<and> due_time (withCourse cs251 hw1) = ''11:59 PM''"
    by code_simp
  have h1': "due_date hw1 = ''2025-10-19'' \<and> due_time hw1 = ''11:59 PM''"
    by (simp add: hw1_def)
  have h2: "2 < length (allAssignments (Single cs251))"
    by code_simp
  have h3: "parse (due_date (allAssignments (Single cs251) ! 2) @ '' ''
              @ due_time (allAssignments (Single cs251) ! 2)) = None"
    by code_simp
  from parse_example_and_fallback [of "withCourse cs251 hw1" 0 "Single cs251" parse noon] h1 h1' h2 h3
  show ?thesis by blast
qed


section \<open>Selection of the week on load\<close>

lemma find_the_one:
  assumes "x \<in> set xs" and "P x" and "\<And>y. y \<in> set xs \<Longrightarrow> P y \<Longrightarrow> y = x"
  shows "find P xs = Some x"
proof (cases "find P xs")
  case None
  with assms(1,2) show ?thesis by (auto simp add: find_None_iff)
next
  case (Some y)
  then have "y \<in> set xs" "P y" by (auto simp add: find_Some_iff)
  with assms(3) Some show ?thesis by simp
qed

lemma board_of_week_number:
  assumes "b \<in> set (weeklyBoards parser clock d)"
  shows "find (\<lambda>board. Some (weekNumber board) = Some (weekNumber b)) (weeklyBoards parser clock d) = Some b"
proof (rule find_the_one [OF assms])
  show "Some (weekNumber b) = Some (weekNumber b)" by simp
next
  fix y assume y: "y \<in> set (weeklyBoards parser clock d)" "Some (weekNumber y) = Some (weekNumber b)"
  have "distinct (map weekNumber (weeklyBoards parser clock d))"
    by (simp only: boards_numbers distinct_upt)
  then have "inj_on weekNumber (set (weeklyBoards parser clock d))"
    by (simp add: distinct_map)
  with y assms show "y = b" by (auto dest: inj_onD)
qed

lemma board_of_date_unique:
  assumes b: "b \<in> set (weeklyBoards parser clock d)" "isWithinInterval today (startDate b) (endDate b)"
    and c: "c \<in> set (weeklyBoards parser clock d)" "isWithinInterval today (startDate c) (endDate c)"
  shows "c = b"
proof -
  let ?bs = "weeklyBoards parser clock d"
  from b(1) c(1) obtain i j where i: "i < length ?bs" "b = ?bs ! i" and j: "j < length ?bs" "c = ?bs ! j"
    by (auto simp add: in_set_conv_nth)
  have "\<not> i < j"
  proof
    assume "i < j"
    from boards_disjoint [OF this j(1)] b(2) c(2) i j show False
      by (simp add: isWithinInterval_def)
  qed
  moreover have "\<not> j < i"
  proof
    assume "j < i"
    from boards_disjoint [OF this i(1)] b(2) c(2) i j show False
      by (simp add: isWithinInterval_def)
  qed
  ultimately have "i = j" by linarith
  with i j show ?thesis by simp
qed

text \<open>The guard of the effect: with a week number selected it does nothing.\<close>

lemma autoSelect_selected:
  "selectedWeek s \<noteq> None \<Longrightarrow> autoSelect today boards s = s"
  by (auto simp add: autoSelect_def)

text \<open>
  Claim C9, as amended. When there are weekly boards, \<open>selectedWeek\<close> is still \<open>null\<close>
  (no week number was selected, neither by a click nor by an earlier run of the effect)
  and the board type is still the weekly one, the effect selects a week number such that
  the board shown, among the boards it ran on, is the board whose interval contains the
  current date, if there is one, and the first board if there is none. It changes nothing
  but the selected week, and once it has selected, a further run of the effect, at any
  date and on any boards, changes nothing.
\<close>

theorem auto_select_current_or_first:
  assumes "weeklyBoards parser clock (currentData s) \<noteq> []"
    and "selectedWeek s = None" and "selectedBoardType s = Weekly"
  shows "(\<forall>b \<in> set (weeklyBoards parser clock (currentData s)).
            isWithinInterval today (startDate b) (endDate b) \<longrightarrow>
              selectedBoard (weeklyBoards parser clock (currentData s))
                (autoSelect today (weeklyBoards parser clock (currentData s)) s) = Some b)
         \<and> ((\<forall>b \<in> set (weeklyBoards parser clock (currentData s)).
                \<not> isWithinInterval today (startDate b) (endDate b)) \<longrightarrow>
              selectedBoard (weeklyBoards parser clock (currentData s))
                (autoSelect today (weeklyBoards parser clock (currentData s)) s)
                = Some (hd (weeklyBoards parser clock (currentData s))))
         \<and> autoSelect today (weeklyBoards parser clock (currentData s)) s
              = s\<lparr>selectedWeek :=
                    selectedWeek (autoSelect today (weeklyBoards parser clock (currentData s)) s)\<rparr>
         \<and> autoSelect today' boards' (autoSelect today (weeklyBoards parser clock (currentData s)) s)
              = autoSelect today (weeklyBoards parser clock (currentData s)) s"
proof -
  let ?bs = "weeklyBoards parser clock (currentData s)"
  let ?P = "\<lambda>board. isWithinInterval today (startDate board) (endDate board)"
  have sel: "selectedBoard ?bs (s\<lparr>selectedWeek := Some (weekNumber b)\<rparr>) = Some b"
    if "b \<in> set ?bs" for b
    using board_of_week_number [OF that] by (simp add: selectedBoard_def)
  have run: "autoSelect today ?bs s =
      (case find ?P ?bs of
         Some currentWeek \<Rightarrow> s\<lparr>selectedWeek := Some (weekNumber currentWeek)\<rparr>
       | None \<Rightarrow> s\<lparr>selectedWeek := Some (weekNumber (?bs ! 0))\<rparr>)"
    using assms by (simp add: autoSelect_def)
  have current: "selectedBoard ?bs (autoSelect today ?bs s) = Some b"
    if b: "b \<in> set ?bs" "?P b" for b
  proof -
    have "find ?P ?bs = Some b"
    proof (rule find_the_one [OF b(1)])
      show "?P b" by (rule b(2))
    next
      fix y assume "y \<in> set ?bs" "?P y"
      then show "y = b" by (rule board_of_date_unique [OF b])
    qed
    with sel [OF b(1)] show ?thesis by (simp only: run option.case)
  qed
  have first: "selectedBoard ?bs (autoSelect today ?bs s) = Some (hd ?bs)"
    if "\<forall>b \<in> set ?bs. \<not> ?P b"
  proof -
    from that have "find ?P ?bs = None" by (simp add: find_None_iff)
    moreover from assms(1) have "hd ?bs \<in> set ?bs" "?bs ! 0 = hd ?bs"
      by (simp_all add: hd_conv_nth)
    ultimately show ?thesis using sel [of "hd ?bs"] by (simp only: run option.case)
  qed
  have frame: "autoSelect today ?bs s = s\<lparr>selectedWeek := selectedWeek (autoSelect today ?bs s)\<rparr>"
    by (cases "find ?P ?bs") (simp_all add: run)
  show ?thesis
  proof (intro conjI ballI impI)
    fix b assume "b \<in> set ?bs" "?P b"
    then show "selectedBoard ?bs (autoSelect today ?bs s) = Some b" by (rule current)
  next
    assume "\<forall>b \<in> set ?bs. \<not> ?P b"
    then show "selectedBoard ?bs (autoSelect today ?bs s) = Some (hd ?bs)" by (rule first)
  next
    show "autoSelect today ?bs s = s\<lparr>selectedWeek := selectedWeek (autoSelect today ?bs s)\<rparr>"
      by (rule frame)
  next
    show "autoSelect today' boards' (autoSelect today ?bs s) = autoSelect today ?bs s"
      by (cases "find ?P ?bs") (simp_all add: run autoSelect_selected)
  qed
qed


theorem auto_select_current_or_first_witness:
  "weeklyBoards parse noon (currentData stateLoad) \<noteq> []
   \<and> selectedWeek stateLoad = None \<and> selectedBoardType stateLoad = Weekly
   \<and> isWithinInterval 1762257600000
         (startDate (weeklyBoards parse noon (currentData stateLoad) ! 1))
         (endDate (weeklyBoards parse noon (currentData stateLoad) ! 1))
   \<and> selectedBoard (weeklyBoards parse noon (currentData stateLoad))
         (autoSelect 1762257600000 (weeklyBoards parse noon (currentData stateLoad)) stateLoad)
       = Some (weeklyBoards parse noon (currentData stateLoad) ! 1)
   \<and> list_all (\<lambda>b. \<not> isWithinInterval 0 (startDate b) (endDate b))
         (weeklyBoards parse noon (currentData stateLoad))
   \<and> selectedBoard (weeklyBoards parse noon (currentData stateLoad))
         (autoSelect 0 (weeklyBoards parse noon (currentData stateLoad)) stateLoad)
       = Some (hd (weeklyBoards parse noon (currentData stateLoad)))
   \<and> autoSelect 0 []
         (autoSelect 1762257600000 (weeklyBoards parse noon (currentData stateLoad)) stateLoad)
       = autoSelect 1762257600000 (weeklyBoards parse noon (currentData stateLoad)) stateLoad"
proof -
  let ?bs = "weeklyBoards parse noon (currentData stateLoad)"
  have len: "length ?bs = 2"
    by code_simp
  then have ne: "?bs \<noteq> []" and mem: "?bs ! 1 \<in> set ?bs"
    by auto
  have st: "selectedWeek stateLoad = None" "selectedBoardType stateLoad = Weekly"
    by (simp_all add: stateLoad_def)
  have now: "isWithinInterval 1762257600000 (startDate (?bs ! 1)) (endDate (?bs ! 1))"
    by code_simp
  have past: "list_all (\<lambda>b. \<not> isWithinInterval 0 (startDate b) (endDate b)) ?bs"
    by code_simp
  then have past': "\<forall>b \<in> set ?bs. \<not> isWithinInterval 0 (startDate b) (endDate b)"
    by (simp add: list_all_iff)
  from auto_select_current_or_first [OF ne st, of 1762257600000] mem now
  have "selectedBoard ?bs (autoSelect 1762257600000 ?bs stateLoad) = Some (?bs ! 1)"
    by blast
  moreover from auto_select_current_or_first [OF ne st, of 1762257600000 0 "[]"]
  have "autoSelect 0 [] (autoSelect 1762257600000 ?bs stateLoad)
      = autoSelect 1762257600000 ?bs stateLoad"
    by blast
  moreover from auto_select_current_or_first [OF ne st, of 0] past'
  have "selectedBoard ?bs (autoSelect 0 ?bs stateLoad) = Some (hd ?bs)"
    by blast
  ultimately show ?thesis using ne st now past by blast
qed

text \<open>
  The claim as stated fails on a load without any click: the effect has selected week 1
  among the boards of the prop, where week 1 is the week of the current date. The
  refetched data has an earlier assignment, so week 1 is now the week of 10/13 and the
  week of the current date is week 2. The effect runs again and changes nothing, and the
  board shown is week 1, which does not contain the current date although week 2 does.
\<close>

theorem auto_select_stale_after_refetch:
  "selectedWeek stateMounted = None \<and> selectedBoardType stateMounted = Weekly
   \<and> map weekNumber (weeklyBoards parse noon (currentData stateMounted)) = [1]
   \<and> selectedWeek stateSelected = Some 1
   \<and> selectedBoard (weeklyBoards parse noon (currentData stateMounted)) stateSelected
       = Some (weeklyBoards parse noon (currentData stateMounted) ! 0)
   \<and> isWithinInterval 1762257600000
         (startDate (weeklyBoards parse noon (currentData stateMounted) ! 0))
         (endDate (weeklyBoards parse noon (currentData stateMounted) ! 0))
   \<and> currentData stateRefetched = Single cs251
   \<and> selectedWeek stateRefetched = Some 1
   \<and> autoSelect 1762257600000 (weeklyBoards parse noon (currentData stateRefetched)) stateRefetched
       = stateRefetched
   \<and> map weekNumber (weeklyBoards parse noon (currentData stateRefetched)) = [1, 2]
   \<and> selectedBoard (weeklyBoards parse noon (currentData stateRefetched)) stateRefetched
       = Some (weeklyBoards parse noon (currentData stateRefetched) ! 0)
   \<and> \<not> isWithinInterval 1762257600000
         (startDate (weeklyBoards parse noon (currentData stateRefetched) ! 0))
         (endDate (weeklyBoards parse noon (currentData stateRefetched) ! 0))
   \<and> isWithinInterval 1762257600000
         (startDate (weeklyBoards parse noon (currentData stateRefetched) ! 1))
         (endDate (weeklyBoards parse noon (currentData stateRefetched) ! 1))"
proof -
  have a: "selectedWeek stateMounted = None \<and> selectedBoardType stateMounted = Weekly"
    by (simp add: stateMounted_def)
  have b: "map weekNumber (weeklyBoards parse noon (currentData stateMounted)) = [1]"
    by code_simp
  have c: "selectedWeek stateSelected = Some 1"
    by code_simp
  have d: "selectedBoard (weeklyBoards parse noon (currentData stateMounted)) stateSelected
       = Some (weeklyBoards parse noon (currentData stateMounted) ! 0)"
    by code_simp
  have e: "isWithinInterval 1762257600000
         (startDate (weeklyBoards parse noon (currentData stateMounted) ! 0))
         (endDate (weeklyBoards parse noon (currentData stateMounted) ! 0))"
    by code_simp
  have f: "currentData stateRefetched = Single cs251"
    by code_simp
  have g: "selectedWeek stateRefetched = Some 1"
    by code_simp
  then have h: "autoSelect 1762257600000 (weeklyBoards parse noon (currentData stateRefetched)) stateRefetched
       = stateRefetched"
    by (simp add: autoSelect_selected)
  have bs: "map weekNumber (weeklyBoards parse noon (Single cs251)) = [1, 2]
      \<and> \<not> isWithinInterval 1762257600000
         (startDate (weeklyBoards parse noon (Single cs251) ! 0))
         (endDate (weeklyBoards parse noon (Single cs251) ! 0))
      \<and> isWithinInterval 1762257600000
         (startDate (weeklyBoards parse noon (Single cs251) ! 1))
         (endDate (weeklyBoards parse noon (Single cs251) ! 1))
      \<and> find (\<lambda>board. Some (weekNumber board) = Some 1) (weeklyBoards parse noon (Single cs251))
          = Some (weeklyBoards parse noon (Single cs251) ! 0)"
    by code_simp
  from bs have i: "map weekNumber (weeklyBoards parse noon (currentData stateRefetched)) = [1, 2]"
    and k: "\<not> isWithinInterval 1762257600000
         (startDate (weeklyBoards parse noon (currentData stateRefetched) ! 0))
         (endDate (weeklyBoards parse noon (currentData stateRefetched) ! 0))"
    and l: "isWithinInterval 1762257600000
         (startDate (weeklyBoards parse noon (currentData stateRefetched) ! 1))
         (endDate (weeklyBoards parse noon (currentData stateRefetched) ! 1))"
    unfolding f by blast+
  from bs g have j: "selectedBoard (weeklyBoards parse noon (currentData stateRefetched)) stateRefetched
       = Some (weeklyBoards parse noon (currentData stateRefetched) ! 0)"
    unfolding f selectedBoard_def by simp
  from a b c d e f g h i j k l show ?thesis by blast
qed


section \<open>Course colours\<close>

lemma hashLoop_foldl:
  "i \<le> length code \<Longrightarrow>
   hashLoop code i h = foldl (\<lambda>hash c. of_char c + (shiftLeft hash 5 - hash)) h (drop i code)"
proof (induction code i h rule: hashLoop.induct)
  case (1 code i hash)
  show ?case
  proof (cases "i < length code")
    case True
    then have d: "drop i code = code ! i # drop (Suc i) code"
      by (simp add: Cons_nth_drop_Suc)
    from True "1.IH" show ?thesis
      by (subst hashLoop.simps) (simp add: d charCodeAt_def)
  next
    case False
    with "1.prems" show ?thesis
      by (subst hashLoop.simps) simp
  qed
qed

lemma hashLoop_rollingHash: "hashLoop code 0 0 = rollingHash code"
  by (simp add: hashLoop_foldl rollingHash_def)

lemma toInt32_range: "- 2147483648 \<le> toInt32 x" "toInt32 x < 2147483648"
  by (simp_all add: toInt32_def)

text \<open>
  The hash stays far below \<open>2 ^ 53\<close> for any course code of fewer than four million
  characters, so the doubles of the source are the integers of the model.
\<close>

lemma foldl_hash_bound:
  "\<bar>foldl (\<lambda>hash c. of_char c + (shiftLeft hash 5 - hash)) h code\<bar>
     \<le> \<bar>h\<bar> + int (length code) * 2147483903"
proof (induction code arbitrary: h)
  case Nil
  show ?case by simp
next
  case (Cons c code)
  have c: "0 \<le> (of_char c :: int) \<and> (of_char c :: int) \<le> 255"
  proof -
    have "(of_char c :: int) mod 256 = of_char c"
      by (rule of_char_mod_256)
    moreover have "0 \<le> (of_char c :: int) mod 256"
      by (rule pos_mod_sign) simp
    moreover have "(of_char c :: int) mod 256 < 256"
      by (rule pos_mod_bound) simp
    ultimately show ?thesis by linarith
  qed
  have s: "- 2147483648 \<le> shiftLeft h 5" "shiftLeft h 5 < 2147483648"
    unfolding shiftLeft_def by (rule toInt32_range)+
  from c s have "\<bar>of_char c + (shiftLeft h 5 - h)\<bar> \<le> \<bar>h\<bar> + 2147483903"
    by linarith
  with Cons.IH [of "of_char c + (shiftLeft h 5 - h)"] show ?case
    by (simp add: algebra_simps)
qed

lemma rollingHash_bound: "\<bar>rollingHash code\<bar> \<le> int (length code) * 2147483903"
  using foldl_hash_bound [of 0 code] by (simp add: rollingHash_def)

text \<open>
  Claim C8. \<open>generateCourseColor\<close> is the palette entry at the absolute value of the
  rolling hash \<open>hash = char_code + ((hash << 5) - hash)\<close> modulo the palette size, and the
  index is always inside the palette: the result is an element of the palette and never
  \<open>undefined\<close>. Being a function of the course code alone, it gives the same colour on
  every call.
\<close>

theorem color_in_palette:
  "generateCourseColor code = at colors (\<bar>rollingHash code\<bar> mod int (length colors))
   \<and> (\<exists>c. generateCourseColor code = Some c \<and> c \<in> set colors)"
proof -
  have len: "length colors = 15" by (simp add: colors_def)
  let ?i = "\<bar>rollingHash code\<bar> mod int (length colors)"
  have "0 \<le> ?i" "?i < int (length colors)" by (simp_all add: len)
  then have "at colors ?i = Some (colors ! nat ?i)" "nat ?i < length colors"
    by (simp_all add: at_def nat_less_iff)
  then show ?thesis
    by (auto simp add: generateCourseColor_def hashLoop_rollingHash)
qed

theorem color_in_palette_witness:
  "rollingHash ''CS 251'' = 1995808414 \<and> rollingHash ''CS 252'' = 1995808415
   \<and> generateCourseColor ''CS 251'' = Some ''#FFEAA7''
   \<and> generateCourseColor ''CS 252'' = Some ''#DDA0DD''"
proof -
  have h: "rollingHash ''CS 251'' = 1995808414" "rollingHash ''CS 252'' = 1995808415"
    by code_simp+
  have "at colors (\<bar>1995808414\<bar> mod int (length colors)) = Some ''#FFEAA7''"
    "at colors (\<bar>1995808415\<bar> mod int (length colors)) = Some ''#DDA0DD''"
    by code_simp+
  with color_in_palette [of "''CS 251''"] color_in_palette [of "''CS 252''"] h
  show ?thesis by simp
qed


section \<open>Drag and drop\<close>

lemma includesId_None:
  "includesId validColumns target = None \<longleftrightarrow>
     target \<notin> {Str ''not-started'', Str ''in-progress'', Str ''done''}"
  by (cases target) (auto simp add: validColumns_def)

text \<open>
  Claim C5. When the drag ends over nothing, or over a droppable that is none of the
  columns \<open>not-started\<close>, \<open>in-progress\<close> and \<open>done\<close>, the handlers of both boards leave the
  whole state (working copy, selection, columns) as it was and send no request; the
  weekly board's handler only logs to the console.
\<close>

theorem invalid_drop_is_noop:
  assumes "over event = None \<or>
           (\<exists>target. over event = Some target
              \<and> target \<notin> {Str ''not-started'', Str ''in-progress'', Str ''done''})"
  shows "fst (handleDragEnd updated fetched event s) = s
         \<and> requestsOf (snd (handleDragEnd updated fetched event s)) = []
         \<and> fst (handleDragEndAll updated fetched updated2 fetched2 event s) = s
         \<and> snd (handleDragEndAll updated fetched updated2 fetched2 event s) = []"
proof (cases "over event")
  case None
  then show ?thesis
    by (simp add: handleDragEnd_def handleDragEndAll_def requestsOf_def)
next
  case (Some target)
  with assms have "includesId validColumns target = None"
    by (simp add: includesId_None)
  with Some show ?thesis
    by (simp add: handleDragEnd_def handleDragEndAll_def requestsOf_def)
qed

theorem invalid_drop_is_noop_witness:
  "over \<lparr>active = 2, over = Some (Num 3)\<rparr> = Some (Num 3)
   \<and> Num 3 \<notin> {Str ''not-started'', Str ''in-progress'', Str ''done''}
   \<and> fst (handleDragEnd (Resolves ()) Throws \<lparr>active = 2, over = Some (Num 3)\<rparr> state0) = state0
   \<and> requestsOf (snd (handleDragEnd (Resolves ()) Throws \<lparr>active = 2, over = Some (Num 3)\<rparr> state0)) = []
   \<and> fst (handleDragEndAll (Resolves ()) Throws (Resolves ()) Throws \<lparr>active = 2, over = None\<rparr> state0) = state0
   \<and> snd (handleDragEndAll (Resolves ()) Throws (Resolves ()) Throws \<lparr>active = 2, over = None\<rparr> state0) = []"
  using invalid_drop_is_noop [of "\<lparr>active = 2, over = Some (Num 3)\<rparr>" "Resolves ()" Throws state0]
    invalid_drop_is_noop [of "\<lparr>active = 2, over = None\<rparr>" "Resolves ()" Throws state0 "Resolves ()" Throws]
  by simp

text \<open>
  Claim C6, as amended. When a card is dropped on a column and \<open>updateAssignmentStatus\<close>
  throws, the handler leaves the whole state as it was (the working copy and the columns
  included), sends no further request, neither a retry nor the refetch, and writes the
  failure to the console: nothing is shown to the user. This holds for the handlers of
  both boards and for \<open>handleAllAssignmentsMove\<close>; the weekly board sends the request only
  when the dragged assignment is in one of its columns.
\<close>

theorem failed_update_leaves_state:
  assumes "over event = Some (Str c)" and "statusMap c = Some newStatus"
  shows "(findAssignment (columns s) (active event) \<noteq> None \<longrightarrow>
            handleDragEnd Throws fetched event s =
              (s, [ConsoleLog ''Drag end:'', ConsoleLog ''Moving assignment:'',
                   Request (UpdateAssignmentStatus (active event) newStatus),
                   ConsoleError ''Failed to update assignment status:'']))
         \<and> handleDragEndAll Throws fetched updated2 fetched2 event s =
              (s, [Request (UpdateAssignmentStatus (active event) newStatus),
                   ConsoleError ''Failed to update assignment status:''])
         \<and> handleAllAssignmentsMove Throws fetched (active event) c s =
              (s, [Request (UpdateAssignmentStatus (active event) newStatus),
                   ConsoleError ''Failed to update assignment status:''])
         \<and> \<not> surfaced s (handleDragEnd Throws fetched event s)
         \<and> \<not> surfaced s (handleDragEndAll Throws fetched updated2 fetched2 event s)
         \<and> \<not> surfaced s (handleAllAssignmentsMove Throws fetched (active event) c s)"
proof -
  from assms(2) have "c \<in> set validColumns"
    by (auto simp add: statusMap_def validColumns_def split: if_splits)
  with assms show ?thesis
    by (auto simp add: handleDragEnd_def handleDragEndAll_def handleAllAssignmentsMove_def
        surfaced_def split: option.split)
qed

theorem failed_update_leaves_state_witness:
  "over \<lparr>active = 2, over = Some (Str ''done'')\<rparr> = Some (Str ''done'')
   \<and> statusMap ''done'' = Some ''DONE''
   \<and> findAssignment (columns state0) 2 \<noteq> None
   \<and> handleDragEnd Throws (Resolves \<lparr>success = True, response_data = Some [cs251]\<rparr>)
        \<lparr>active = 2, over = Some (Str ''done'')\<rparr> state0 =
       (state0, [ConsoleLog ''Drag end:'', ConsoleLog ''Moving assignment:'',
                 Request (UpdateAssignmentStatus 2 ''DONE''),
                 ConsoleError ''Failed to update assignment status:''])
   \<and> handleDragEndAll Throws (Resolves \<lparr>success = True, response_data = Some [cs251]\<rparr>)
        (Resolves ()) Throws \<lparr>active = 2, over = Some (Str ''done'')\<rparr> state0 =
       (state0, [Request (UpdateAssignmentStatus 2 ''DONE''),
                 ConsoleError ''Failed to update assignment status:''])
   \<and> handleAllAssignmentsMove Throws (Resolves \<lparr>success = True, response_data = Some [cs251]\<rparr>)
        2 ''done'' state0 =
       (state0, [Request (UpdateAssignmentStatus 2 ''DONE''),
                 ConsoleError ''Failed to update assignment status:''])
   \<and> \<not> surfaced state0
         (handleDragEnd Throws (Resolves \<lparr>success = True, response_data = Some [cs251]\<rparr>)
            \<lparr>active = 2, over = Some (Str ''done'')\<rparr> state0)"
proof -
  have h1: "statusMap ''done'' = Some ''DONE''"
    by (simp add: statusMap_def)
  have h2: "findAssignment (columns state0) 2 \<noteq> None"
    by (simp add: state0_def resetColumns_filter cardOf_def)
  from failed_update_leaves_state [of "\<lparr>active = 2, over = Some (Str ''done'')\<rparr>" "''done''" "''DONE''"
      state0 "Resolves \<lparr>success = True, response_data = Some [cs251]\<rparr>" "Resolves ()" Throws] h1 h2
  show ?thesis by (simp add: surfaced_def)
qed

text \<open>
  The claim as stated, with a message shown to the user, fails: assignment 2 is dropped on
  \<open>done\<close>, the update throws, and the state, hence the page, is what it was before; the
  failure is on the console only.
\<close>

theorem failed_update_not_surfaced:
  "handleDragEnd Throws Throws \<lparr>active = 2, over = Some (Str ''done'')\<rparr> state0 =
     (state0, [ConsoleLog ''Drag end:'', ConsoleLog ''Moving assignment:'',
               Request (UpdateAssignmentStatus 2 ''DONE''),
               ConsoleError ''Failed to update assignment status:''])
   \<and> \<not> surfaced state0 (handleDragEnd Throws Throws \<lparr>active = 2, over = Some (Str ''done'')\<rparr> state0)"
  by (simp add: handleDragEnd_def surfaced_def validColumns_def statusMap_def state0_def
       resetColumns_filter cardOf_def)

end
